theory Spec2Isabelle
  imports Main "HOL-Library.AList"
begin

section \<open>Values of the secret document\<close>

text \<open>
  The rotation steps of \<^verbatim>\<open>lambda_function.py\<close> (\<^verbatim>\<open>create_secret\<close>, \<^verbatim>\<open>set_secret\<close>,
  \<^verbatim>\<open>test_secret\<close>, \<^verbatim>\<open>finish_secret\<close>) and their helpers are modelled; the
  dispatch in \<^verbatim>\<open>lambda_handler\<close> is not. They work on secret documents: JSON
  objects that \<^verbatim>\<open>json.loads\<close> turns into Python dictionaries. A JSON value is
  \<^verbatim>\<open>None\<close>, a \<^verbatim>\<open>bool\<close>, an \<^verbatim>\<open>int\<close>, a \<^verbatim>\<open>str\<close>, a list or a dictionary
  (numbers with a fraction are left out of the model). A dictionary keeps its
  insertion order and has each key once, so it is an association list:
  \<open>map_of d k\<close> is the lookup, \<open>AList.update k v d\<close> is \<^verbatim>\<open>d[k] = v\<close> and
  \<open>AList.delete k d\<close> is \<^verbatim>\<open>d.pop(k, None)\<close>.
\<close>

datatype jval =
    JNull
  | JBool bool
  | JInt int
  | JStr string
  | JArr "jval list"
  | JObj "(string \<times> jval) list"

type_synonym pydict = "(string \<times> jval) list"

text \<open>Truth value of an object, as \<^verbatim>\<open>if x:\<close> and \<^verbatim>\<open>not x\<close> test it.\<close>

fun py_truthy :: "jval \<Rightarrow> bool" where
  "py_truthy JNull = False"
| "py_truthy (JBool b) = b"
| "py_truthy (JInt n) = (n \<noteq> 0)"
| "py_truthy (JStr s) = (s \<noteq> [])"
| "py_truthy (JArr xs) = (xs \<noteq> [])"
| "py_truthy (JObj d) = (d \<noteq> [])"

text \<open>
  Python's \<^verbatim>\<open>==\<close> on these values: \<^verbatim>\<open>True == 1\<close> and \<^verbatim>\<open>False == 0\<close> hold,
  lists are compared element by element, dictionaries key by key whatever
  their order. \<^verbatim>\<open>a != b\<close> is its negation.
\<close>

fun py_eq :: "jval \<Rightarrow> jval \<Rightarrow> bool" where
  "py_eq JNull JNull = True"
| "py_eq (JBool a) (JBool b) = (a = b)"
| "py_eq (JBool a) (JInt n) = ((if a then 1 else 0) = n)"
| "py_eq (JInt n) (JBool a) = (n = (if a then 1 else 0))"
| "py_eq (JInt m) (JInt n) = (m = n)"
| "py_eq (JStr s) (JStr t) = (s = t)"
| "py_eq (JArr xs) (JArr ys) = list_all2 py_eq xs ys"
| "py_eq (JObj d) (JObj e) = (length d = length e \<and>
      list_all (\<lambda>(k, v). case map_of e k of None \<Rightarrow> False | Some w \<Rightarrow> py_eq v w) d)"
| "py_eq _ _ = False"

text \<open>
  \<^verbatim>\<open>str.lower()\<close>. A character is a byte here and a string its UTF-8 encoding.
  The function below changes the letters A to Z only. Python also changes
  letters outside ASCII, but none of them into a letter of \<^verbatim>\<open>"true"\<close> or
  \<^verbatim>\<open>"false"\<close>, so on the question whether the result is one of these two
  words the byte-wise function agrees with Python's.
\<close>

definition lower_char :: "char \<Rightarrow> char" where
  "lower_char c =
     (let n = (of_char c :: nat) in if 65 \<le> n \<and> n \<le> 90 then char_of (n + 32) else c)"

definition py_lower :: "string \<Rightarrow> string" where
  "py_lower s = map lower_char s"

section \<open>Errors\<close>

text \<open>
  Every exception the code raises or lets through is a value. The argument of
  a \<^verbatim>\<open>KeyError\<close> or \<^verbatim>\<open>ValueError\<close> records which \<^verbatim>\<open>raise\<close> statement made it
  and the values its message is formatted from.
\<close>

datatype key_msg =
    MissingKey string
  | FieldMissing string
  | UnsupportedEngine

datatype value_msg =
    ModifyOtherUser jval jval
  | ModifyOtherHost jval jval
  | ModifyOtherPreviousUser jval jval
  | ModifyOtherPreviousHost jval jval
  | UnableToLogIn string
  | PendingLoginFailed string
  | NotSameHostOrReplica jval jval
  | MasterLoginFailed jval
  | InvalidJSON
  | InvalidIntLiteral

datatype error =
    KeyError key_msg
  | ValueError value_msg
  | TypeError
  | IndexError
  | AttributeError
  | ResourceNotFoundException
  | ClientError string
  | PgInternalError string
  | PgError string

fun is_KeyError :: "error \<Rightarrow> bool" where
  "is_KeyError (KeyError _) = True"
| "is_KeyError _ = False"

fun is_PgInternalError :: "error \<Rightarrow> bool" where
  "is_PgInternalError (PgInternalError _) = True"
| "is_PgInternalError _ = False"

definition subscript :: "pydict \<Rightarrow> string \<Rightarrow> error + jval" where
  "subscript d k = (case map_of d k of None \<Rightarrow> Inl (KeyError (MissingKey k)) | Some v \<Rightarrow> Inr v)"

definition dict_get :: "pydict \<Rightarrow> string \<Rightarrow> jval" where
  "dict_get d k = (case map_of d k of None \<Rightarrow> JNull | Some v \<Rightarrow> v)"

section \<open>The outside world\<close>

text \<open>
  The program talks to three services: the secrets vault (\<^verbatim>\<open>boto3\<close>'s
  \<^verbatim>\<open>secretsmanager\<close> client), the directory of managed databases (the \<^verbatim>\<open>rds\<close>
  client) and the PostgreSQL server (\<^verbatim>\<open>pgdb\<close>). None of them is code of this
  program. Each call that changes something or that may answer differently the
  next time is an event of a trace, and what a service answers is a parameter:
  a function of the trace so far and of the call's arguments. A theorem that
  holds for every such environment holds whatever the services do.
\<close>

record conn_req =
  req_host :: jval
  req_user :: jval
  req_password :: jval
  req_database :: jval
  req_port :: int
  req_verify_full :: bool

datatype db_stmt =
    QuoteIdent jval
  | SelectRole jval
  | CreateRole jval jval
  | AlterUser jval jval
  | SelectNow

datatype event =
    Connect conn_req
  | Execute nat db_stmt
  | Commit nat
  | Close nat
  | DescribeDBInstances string
  | GetRandomPassword string
  | PutSecretValue jval string pydict "string list"
  | UpdateSecretVersionStage jval string string "string option"

datatype connect_outcome = Connected | ConnectRaises error

datatype exec_outcome = Rows "jval list list" | ExecRaises error

datatype rds_outcome = DBInstances "pydict list" | RdsRaises error

datatype secret_string = JsonText pydict | NotJson

record metadata =
  RotationEnabled :: "bool option"
  VersionIdsToStages :: "(string \<times> string list) list option"

record env =
  environ :: "string \<Rightarrow> string option"
  int_of_str :: "string \<Rightarrow> int option"
  pgdb_connect :: "event list \<Rightarrow> conn_req \<Rightarrow> connect_outcome"
  cursor_execute :: "event list \<Rightarrow> nat \<Rightarrow> db_stmt \<Rightarrow> exec_outcome"
  conn_commit :: "event list \<Rightarrow> nat \<Rightarrow> error option"
  describe_db_instances :: "event list \<Rightarrow> string \<Rightarrow> rds_outcome"
  describe_secret :: "event list \<Rightarrow> jval \<Rightarrow> error + metadata"
  get_secret_value :: "event list \<Rightarrow> jval \<Rightarrow> string option \<Rightarrow> string \<Rightarrow> error + secret_string"
  get_random_password :: "event list \<Rightarrow> string \<Rightarrow> error + string"
  put_secret_value :: "event list \<Rightarrow> jval \<Rightarrow> string \<Rightarrow> pydict \<Rightarrow> string list \<Rightarrow> error option"
  update_secret_version_stage ::
    "event list \<Rightarrow> jval \<Rightarrow> string \<Rightarrow> string \<Rightarrow> string option \<Rightarrow> error option"

text \<open>
  The state the program runs in: the trace of its calls and the database
  sessions it holds open. A session is named by the position of its
  \<open>Connect\<close> event in the trace.
\<close>

record world =
  trace :: "event list"
  open_conns :: "nat list"

definition emit :: "event \<Rightarrow> world \<Rightarrow> world" where
  "emit e w = w\<lparr>trace := trace w @ [e]\<rparr>"

text \<open>\<^verbatim>\<open>int(x)\<close>; how Python reads a string as an integer is the parameter \<open>int_of_str\<close>.\<close>

definition py_int :: "env \<Rightarrow> jval \<Rightarrow> error + int" where
  "py_int env v =
     (case v of
        JInt n \<Rightarrow> Inr n
      | JBool b \<Rightarrow> Inr (if b then 1 else 0)
      | JStr s \<Rightarrow> (case int_of_str env s of
                     None \<Rightarrow> Inl (ValueError InvalidIntLiteral)
                   | Some n \<Rightarrow> Inr n)
      | _ \<Rightarrow> Inl TypeError)"

section \<open>The connection negotiator\<close>

text \<open>\<^verbatim>\<open>get_ssl_config\<close>: the pair \<open>(use_ssl, fall_back)\<close>.\<close>

definition get_ssl_config :: "pydict \<Rightarrow> bool \<times> bool" where
  "get_ssl_config secret_dict =
     (case map_of secret_dict ''ssl'' of
        None \<Rightarrow> (True, True)
      | Some (JBool b) \<Rightarrow> (b, False)
      | Some (JStr s) \<Rightarrow>
          (let ssl = py_lower s in
           if ssl = ''true'' then (True, False)
           else if ssl = ''false'' then (False, False)
           else (True, True))
      | Some _ \<Rightarrow> (True, True))"

text \<open>
  The arguments of \<^verbatim>\<open>pgdb.connect\<close> are evaluated before the call: a missing
  \<^verbatim>\<open>host\<close>, \<^verbatim>\<open>username\<close> or \<^verbatim>\<open>password\<close> raises \<^verbatim>\<open>KeyError\<close> and no call is made.
  \<open>req_verify_full\<close> tells the call with \<^verbatim>\<open>sslmode='verify-full'\<close> from the
  call without an \<^verbatim>\<open>sslmode\<close>.
\<close>

definition connect_args :: "pydict \<Rightarrow> int \<Rightarrow> jval \<Rightarrow> bool \<Rightarrow> error + conn_req" where
  "connect_args secret_dict port dbname verify_full =
     (case subscript secret_dict ''host'' of
        Inl e \<Rightarrow> Inl e
      | Inr h \<Rightarrow>
     (case subscript secret_dict ''username'' of
        Inl e \<Rightarrow> Inl e
      | Inr u \<Rightarrow>
     (case subscript secret_dict ''password'' of
        Inl e \<Rightarrow> Inl e
      | Inr p \<Rightarrow>
          Inr \<lparr>req_host = h, req_user = u, req_password = p, req_database = dbname,
               req_port = port, req_verify_full = verify_full\<rparr>)))"

definition connect :: "env \<Rightarrow> conn_req \<Rightarrow> world \<Rightarrow> (error + nat) \<times> world" where
  "connect env req w =
     (case pgdb_connect env (trace w) req of
        Connected \<Rightarrow>
          (Inr (length (trace w)),
           (emit (Connect req) w)\<lparr>open_conns := length (trace w) # open_conns w\<rparr>)
      | ConnectRaises e \<Rightarrow> (Inl e, emit (Connect req) w))"

text \<open>
  \<^verbatim>\<open>connect_and_authenticate\<close>. With \<open>use_ssl\<close> every exception of the first
  \<^verbatim>\<open>try\<close> block is caught and the function calls itself with \<open>use_ssl = False\<close>;
  without it only \<^verbatim>\<open>pg.InternalError\<close> is caught and gives \<^verbatim>\<open>None\<close>. The log
  lines have no effect and are left out; the handler reads the message of the
  \<^verbatim>\<open>pg.InternalError\<close> (\<^verbatim>\<open>e.args[0]\<close>), which the driver always sets.
\<close>

function connect_and_authenticate ::
  "env \<Rightarrow> pydict \<Rightarrow> int \<Rightarrow> jval \<Rightarrow> bool \<Rightarrow> world \<Rightarrow> (error + nat option) \<times> world" where
  "connect_and_authenticate env secret_dict port dbname use_ssl w =
     (if use_ssl then
        (case connect_args secret_dict port dbname True of
           Inl e \<Rightarrow> connect_and_authenticate env secret_dict port dbname False w
         | Inr req \<Rightarrow>
             (case connect env req w of
                (Inr conn, w1) \<Rightarrow> (Inr (Some conn), w1)
              | (Inl e, w1) \<Rightarrow> connect_and_authenticate env secret_dict port dbname False w1))
      else
        (case connect_args secret_dict port dbname False of
           Inl e \<Rightarrow> (Inl e, w)
         | Inr req \<Rightarrow>
             (case connect env req w of
                (Inr conn, w1) \<Rightarrow> (Inr (Some conn), w1)
              | (Inl e, w1) \<Rightarrow> if is_PgInternalError e then (Inr None, w1) else (Inl e, w1))))"
  by pat_completeness auto
termination
  by (relation "measure (\<lambda>(env, secret_dict, port, dbname, use_ssl, w). if use_ssl then 1 else 0)")
     auto

declare connect_and_authenticate.simps [simp del]

text \<open>\<^verbatim>\<open>get_connection\<close>: a session, \<^verbatim>\<open>None\<close>, or an exception.\<close>

definition get_connection :: "env \<Rightarrow> pydict \<Rightarrow> world \<Rightarrow> (error + nat option) \<times> world" where
  "get_connection env secret_dict w =
     (case (case map_of secret_dict ''port'' of
              Some v \<Rightarrow> py_int env v
            | None \<Rightarrow> Inr 5432) of
        Inl e \<Rightarrow> (Inl e, w)
      | Inr port \<Rightarrow>
          (let dbname = (case map_of secret_dict ''dbname'' of
                           Some v \<Rightarrow> v
                         | None \<Rightarrow> JStr ''postgres'');
               (use_ssl, fall_back) = get_ssl_config secret_dict
           in case connect_and_authenticate env secret_dict port dbname use_ssl w of
                (Inl e, w1) \<Rightarrow> (Inl e, w1)
              | (Inr conn, w1) \<Rightarrow>
                  if conn \<noteq> None \<or> \<not> fall_back then (Inr conn, w1)
                  else connect_and_authenticate env secret_dict port dbname False w1))"

section \<open>Sequencing\<close>

text \<open>
  A step of the program takes the world and returns a value or an exception,
  and the world after it. \<open>bind\<close> is one statement after another (an exception
  ends the run), \<open>try_finally\<close> is \<^verbatim>\<open>try: ... finally: ...\<close>.
\<close>

type_synonym 'a prog = "world \<Rightarrow> (error + 'a) \<times> world"

definition return :: "'a \<Rightarrow> 'a prog" where
  "return x w = (Inr x, w)"

definition raise :: "error \<Rightarrow> 'a prog" where
  "raise e w = (Inl e, w)"

definition lift :: "error + 'a \<Rightarrow> 'a prog" where
  "lift r w = (r, w)"

definition bind :: "'a prog \<Rightarrow> ('a \<Rightarrow> 'b prog) \<Rightarrow> 'b prog" where
  "bind m f w = (case m w of (Inl e, w1) \<Rightarrow> (Inl e, w1) | (Inr x, w1) \<Rightarrow> f x w1)"

definition try_finally :: "'a prog \<Rightarrow> (world \<Rightarrow> world) \<Rightarrow> 'a prog" where
  "try_finally m cleanup w = (case m w of (r, w1) \<Rightarrow> (r, cleanup w1))"

section \<open>Sessions\<close>

text \<open>
  \<^verbatim>\<open>cur.execute\<close>, \<^verbatim>\<open>conn.commit\<close> and \<^verbatim>\<open>conn.close\<close>. A statement is kept as
  its kind and its arguments, not as text. Opening and leaving the cursor
  (\<^verbatim>\<open>with conn.cursor() as cur\<close>) and \<^verbatim>\<open>conn.close()\<close> do not raise.
\<close>

definition execute :: "env \<Rightarrow> nat \<Rightarrow> db_stmt \<Rightarrow> (jval list list) prog" where
  "execute env conn stmt w =
     (case cursor_execute env (trace w) conn stmt of
        Rows rs \<Rightarrow> (Inr rs, emit (Execute conn stmt) w)
      | ExecRaises e \<Rightarrow> (Inl e, emit (Execute conn stmt) w))"

definition commit :: "env \<Rightarrow> nat \<Rightarrow> unit prog" where
  "commit env conn w =
     (case conn_commit env (trace w) conn of
        None \<Rightarrow> (Inr (), emit (Commit conn) w)
      | Some e \<Rightarrow> (Inl e, emit (Commit conn) w))"

definition close :: "nat \<Rightarrow> world \<Rightarrow> world" where
  "close conn w = (emit (Close conn) w)\<lparr>open_conns := removeAll conn (open_conns w)\<rparr>"

text \<open>\<^verbatim>\<open>cur.fetchone()[0]\<close>: \<^verbatim>\<open>fetchone\<close> gives \<^verbatim>\<open>None\<close> when there is no row.\<close>

definition fetchone_0 :: "jval list list \<Rightarrow> error + jval" where
  "fetchone_0 rows =
     (case rows of
        [] \<Rightarrow> Inl TypeError
      | row # _ \<Rightarrow> (case row of [] \<Rightarrow> Inl IndexError | v # _ \<Rightarrow> Inr v))"

section \<open>The secret accessor\<close>

definition required_fields :: "string list" where
  "required_fields = [''host'', ''username'', ''password'', ''engine'']"

definition supported_engines :: "string list" where
  "supported_engines = [''postgres'', ''aurora-postgresql'']"

text \<open>
  \<^verbatim>\<open>get_secret_dict\<close>. The secret string is the JSON text of an object or a text
  that \<^verbatim>\<open>json.loads\<close> rejects. \<^verbatim>\<open>if token:\<close> is false for \<^verbatim>\<open>None\<close> and for the
  empty string. The function reads the vault and changes nothing.
\<close>

definition get_secret_dict ::
  "env \<Rightarrow> jval \<Rightarrow> string \<Rightarrow> string option \<Rightarrow> bool \<Rightarrow> world \<Rightarrow> error + pydict" where
  "get_secret_dict env arn stage token master_secret w =
     (case get_secret_value env (trace w) arn
             (case token of None \<Rightarrow> None | Some t \<Rightarrow> if t \<noteq> [] then Some t else None) stage of
        Inl e \<Rightarrow> Inl e
      | Inr NotJson \<Rightarrow> Inl (ValueError InvalidJSON)
      | Inr (JsonText secret_dict) \<Rightarrow>
          if \<not> master_secret then
            (case find (\<lambda>field. map_of secret_dict field = None) required_fields of
               Some field \<Rightarrow> Inl (KeyError (FieldMissing field))
             | None \<Rightarrow>
                 (case subscript secret_dict ''engine'' of
                    Inl e \<Rightarrow> Inl e
                  | Inr engine \<Rightarrow>
                      if \<not> list_ex (\<lambda>s. py_eq engine (JStr s)) supported_engines
                      then Inl (KeyError UnsupportedEngine)
                      else Inr secret_dict))
          else Inr secret_dict)"

definition fetch :: "env \<Rightarrow> jval \<Rightarrow> string \<Rightarrow> string option \<Rightarrow> bool \<Rightarrow> pydict prog" where
  "fetch env arn stage token master_secret w =
     (get_secret_dict env arn stage token master_secret w, w)"

section \<open>The replica verifier\<close>

text \<open>
  \<^verbatim>\<open>host.split(".")[0]\<close>; a value that is no string has no \<^verbatim>\<open>split\<close>. Making
  the \<^verbatim>\<open>rds\<close> client does not raise.
\<close>

definition instance_id :: "jval \<Rightarrow> error + string" where
  "instance_id host =
     (case host of
        JStr s \<Rightarrow> Inr (takeWhile (\<lambda>c. c \<noteq> CHR ''.'') s)
      | _ \<Rightarrow> Inl AttributeError)"

definition is_rds_replica_database :: "env \<Rightarrow> pydict \<Rightarrow> pydict \<Rightarrow> bool prog" where
  "is_rds_replica_database env replica_dict master_dict =
     bind (lift (subscript replica_dict ''host'')) (\<lambda>replica_host.
     bind (lift (instance_id replica_host)) (\<lambda>replica_instance_id.
     bind (lift (subscript master_dict ''host'')) (\<lambda>master_host.
     bind (lift (instance_id master_host)) (\<lambda>master_instance_id.
     (\<lambda>w. case describe_db_instances env (trace w) replica_instance_id of
             RdsRaises err \<Rightarrow> (Inr False, emit (DescribeDBInstances replica_instance_id) w)
           | DBInstances instances \<Rightarrow>
               (case instances of
                  [] \<Rightarrow> (Inr False, emit (DescribeDBInstances replica_instance_id) w)
                | current_instance # _ \<Rightarrow>
                    (Inr (py_eq (JStr master_instance_id)
                            (dict_get current_instance ''ReadReplicaSourceDBInstanceIdentifier'')),
                     emit (DescribeDBInstances replica_instance_id) w)))))))"

section \<open>The user provisioner\<close>

text \<open>
  The master record as \<^verbatim>\<open>create_user_if_not_exists\<close> prepares it: every key of
  the child whose value in the master record is missing or false is copied
  over, then \<^verbatim>\<open>dbname\<close> is set to \<^verbatim>\<open>secret_dict.get('dbname', None)\<close>.
\<close>

definition backfill :: "pydict \<Rightarrow> pydict \<Rightarrow> pydict" where
  "backfill secret_dict master_dict =
     fold (\<lambda>(key, val) m. if \<not> py_truthy (dict_get m key) then AList.update key val m else m)
       secret_dict master_dict"

definition prepare_master :: "pydict \<Rightarrow> pydict \<Rightarrow> pydict" where
  "prepare_master secret_dict master_dict =
     AList.update ''dbname'' (dict_get secret_dict ''dbname'') (backfill secret_dict master_dict)"

text \<open>
  \<^verbatim>\<open>create_user_if_not_exists\<close>. The last statement of the \<^verbatim>\<open>try\<close> block is a
  log line that reads \<^verbatim>\<open>secret_dict['dbname']\<close>, so it raises \<^verbatim>\<open>KeyError\<close> for
  a child without that key, after the commit.
\<close>

definition create_user_if_not_exists :: "env \<Rightarrow> pydict \<Rightarrow> bool prog" where
  "create_user_if_not_exists env secret_dict =
     (if py_truthy (dict_get secret_dict ''masterarn'') then
        bind (lift (subscript secret_dict ''masterarn'')) (\<lambda>master_arn.
        bind (fetch env master_arn ''AWSCURRENT'' None True) (\<lambda>fetched.
        let master_dict = prepare_master secret_dict fetched in
        bind (lift (subscript secret_dict ''host'')) (\<lambda>secret_host.
        bind (lift (subscript master_dict ''host'')) (\<lambda>master_host.
        bind (if \<not> py_eq secret_host master_host
              then bind (is_rds_replica_database env secret_dict master_dict)
                     (\<lambda>is_replica. return (\<not> is_replica))
              else return False) (\<lambda>unrelated.
        if unrelated then raise (ValueError (NotSameHostOrReplica secret_host master_host))
        else
        bind (get_connection env master_dict) (\<lambda>conn.
        case conn of
          None \<Rightarrow> raise (ValueError (MasterLoginFailed master_arn))
        | Some c \<Rightarrow>
            try_finally
              (bind (lift (subscript secret_dict ''username'')) (\<lambda>username.
               bind (execute env c (QuoteIdent username)) (\<lambda>rows.
               bind (lift (fetchone_0 rows)) (\<lambda>current_username.
               bind (execute env c (SelectRole username)) (\<lambda>roles.
               bind (if length roles = 0
                     then bind (lift (subscript secret_dict ''password'')) (\<lambda>password.
                          bind (execute env c (CreateRole current_username password)) (\<lambda>_.
                          return True))
                     else return False) (\<lambda>user_created.
               bind (commit env c) (\<lambda>_.
               bind (lift (subscript secret_dict ''dbname'')) (\<lambda>_.
               return user_created))))))))
              (close c)))))))
      else return False)"

section \<open>The rotation steps\<close>

text \<open>The default of \<^verbatim>\<open>EXCLUDE_CHARACTERS\<close>: the six characters \<^verbatim>\<open>:/@"'\\<close>.\<close>

definition default_exclude_characters :: string where
  "default_exclude_characters =
     [CHR '':'', CHR ''/'', CHR ''@'', CHR 0x22, CHR 0x27, CHR 0x5C]"

text \<open>\<^verbatim>\<open>create_secret\<close>; \<^verbatim>\<open>json.dumps\<close> of a dictionary is its JSON text.\<close>

definition create_secret :: "env \<Rightarrow> string \<Rightarrow> string \<Rightarrow> unit prog" where
  "create_secret env arn token =
     bind (fetch env (JStr arn) ''AWSCURRENT'' None False) (\<lambda>current_dict.
     (\<lambda>w. case get_secret_dict env (JStr arn) ''AWSPENDING'' (Some token) False w of
             Inr _ \<Rightarrow> (Inr (), w)
           | Inl e \<Rightarrow>
               if e = ResourceNotFoundException then
                 (let exclude_characters =
                        (case environ env ''EXCLUDE_CHARACTERS'' of
                           Some s \<Rightarrow> s
                         | None \<Rightarrow> default_exclude_characters)
                  in case get_random_password env (trace w) exclude_characters of
                       Inl e1 \<Rightarrow> (Inl e1, emit (GetRandomPassword exclude_characters) w)
                     | Inr passwd \<Rightarrow>
                         (let w1 = emit (GetRandomPassword exclude_characters) w;
                              new_dict = AList.update ''password'' (JStr passwd) current_dict
                          in case put_secret_value env (trace w1) (JStr arn) token new_dict
                                    [''AWSPENDING''] of
                               Some e2 \<Rightarrow>
                                 (Inl e2,
                                  emit (PutSecretValue (JStr arn) token new_dict [''AWSPENDING'']) w1)
                             | None \<Rightarrow>
                                 (Inr (),
                                  emit (PutSecretValue (JStr arn) token new_dict [''AWSPENDING'']) w1)))
               else (Inl e, w)))"

text \<open>
  \<^verbatim>\<open>set_secret\<close>. \<^verbatim>\<open>previous_dict\<close> is \<^verbatim>\<open>None\<close> when the fetch raises
  \<^verbatim>\<open>ResourceNotFoundException\<close> or \<^verbatim>\<open>KeyError\<close>; \<^verbatim>\<open>not conn and previous_dict\<close>
  also asks that the dictionary is not empty.
\<close>

definition set_secret :: "env \<Rightarrow> string \<Rightarrow> string \<Rightarrow> unit prog" where
  "set_secret env arn token =
     bind (\<lambda>w. (case get_secret_dict env (JStr arn) ''AWSPREVIOUS'' None False w of
                   Inr d \<Rightarrow> Inr (Some d)
                 | Inl e \<Rightarrow> if e = ResourceNotFoundException \<or> is_KeyError e
                            then Inr None else Inl e, w)) (\<lambda>previous_dict.
     bind (fetch env (JStr arn) ''AWSCURRENT'' None False) (\<lambda>current_dict.
     bind (fetch env (JStr arn) ''AWSPENDING'' (Some token) False) (\<lambda>pending_dict.
     bind (create_user_if_not_exists env current_dict) (\<lambda>_.
     bind (get_connection env pending_dict) (\<lambda>conn.
     case conn of
       Some c \<Rightarrow> (\<lambda>w. (Inr (), close c w))
     | None \<Rightarrow>
         bind (lift (subscript current_dict ''username'')) (\<lambda>current_username.
         bind (lift (subscript pending_dict ''username'')) (\<lambda>pending_username.
         if \<not> py_eq current_username pending_username
         then raise (ValueError (ModifyOtherUser pending_username current_username))
         else
         bind (lift (subscript current_dict ''host'')) (\<lambda>current_host.
         bind (lift (subscript pending_dict ''host'')) (\<lambda>pending_host.
         if \<not> py_eq current_host pending_host
         then raise (ValueError (ModifyOtherHost pending_host current_host))
         else
         bind (get_connection env current_dict) (\<lambda>conn.
         bind (case previous_dict of
                 None \<Rightarrow> return conn
               | Some previous \<Rightarrow>
                   if conn = None \<and> previous \<noteq> [] then
                     (let popped = AList.delete ''ssl'' previous;
                          previous_dict = (case map_of current_dict ''ssl'' of
                                             Some v \<Rightarrow> AList.update ''ssl'' v popped
                                           | None \<Rightarrow> popped)
                      in bind (get_connection env previous_dict) (\<lambda>conn.
                         bind (lift (subscript previous_dict ''username'')) (\<lambda>previous_username.
                         if \<not> py_eq previous_username pending_username
                         then raise (ValueError
                                (ModifyOtherPreviousUser pending_username previous_username))
                         else
                         bind (lift (subscript previous_dict ''host'')) (\<lambda>previous_host.
                         if \<not> py_eq previous_host pending_host
                         then raise (ValueError
                                (ModifyOtherPreviousHost pending_host previous_host))
                         else return conn))))
                   else return conn) (\<lambda>conn.
         case conn of
           None \<Rightarrow> raise (ValueError (UnableToLogIn arn))
         | Some c \<Rightarrow>
             try_finally
               (bind (execute env c (QuoteIdent pending_username)) (\<lambda>rows.
                bind (lift (fetchone_0 rows)) (\<lambda>escaped_username.
                bind (lift (subscript pending_dict ''password'')) (\<lambda>password.
                bind (execute env c (AlterUser escaped_username password)) (\<lambda>_.
                commit env c)))))
               (close c))))))))))))"

text \<open>\<^verbatim>\<open>test_secret\<close>.\<close>

definition test_secret :: "env \<Rightarrow> string \<Rightarrow> string \<Rightarrow> unit prog" where
  "test_secret env arn token =
     bind (fetch env (JStr arn) ''AWSPENDING'' (Some token) False) (\<lambda>pending_dict.
     bind (get_connection env pending_dict) (\<lambda>conn.
     case conn of
       Some c \<Rightarrow>
         try_finally
           (bind (execute env c SelectNow) (\<lambda>_. commit env c))
           (close c)
     | None \<Rightarrow> raise (ValueError (PendingLoginFailed arn))))"

text \<open>
  \<^verbatim>\<open>finish_secret\<close>. The loop over the versions stops at the first one that holds
  \<^verbatim>\<open>AWSCURRENT\<close>: it returns when that version is the token, and leaves the loop
  with \<^verbatim>\<open>current_version\<close> set otherwise.
\<close>

datatype loop_exit = AlreadyCurrent | CurrentVersion "string option"

fun scan_versions :: "(string \<times> string list) list \<Rightarrow> string \<Rightarrow> loop_exit" where
  "scan_versions [] token = CurrentVersion None"
| "scan_versions ((version, stages) # rest) token =
     (if ''AWSCURRENT'' \<in> set stages
      then (if version = token then AlreadyCurrent else CurrentVersion (Some version))
      else scan_versions rest token)"

definition finish_secret :: "env \<Rightarrow> string \<Rightarrow> string \<Rightarrow> unit prog" where
  "finish_secret env arn token w =
     (case describe_secret env (trace w) (JStr arn) of
        Inl e \<Rightarrow> (Inl e, w)
      | Inr metadata \<Rightarrow>
          (case VersionIdsToStages metadata of
             None \<Rightarrow> (Inl (KeyError (MissingKey ''VersionIdsToStages'')), w)
           | Some versions \<Rightarrow>
               (case scan_versions versions token of
                  AlreadyCurrent \<Rightarrow> (Inr (), w)
                | CurrentVersion current_version \<Rightarrow>
                    (case update_secret_version_stage env (trace w) (JStr arn) ''AWSCURRENT''
                            token current_version of
                       Some e \<Rightarrow>
                         (Inl e,
                          emit (UpdateSecretVersionStage (JStr arn) ''AWSCURRENT'' token
                                  current_version) w)
                     | None \<Rightarrow>
                         (Inr (),
                          emit (UpdateSecretVersionStage (JStr arn) ''AWSCURRENT'' token
                                  current_version) w)))))"

section \<open>Notions used in the statements\<close>

text \<open>
  Two strings are equal ignoring case when they have the same length and at
  each position the same character or the two cases of one letter.
\<close>

definition is_upper :: "char \<Rightarrow> bool" where
  "is_upper c = (65 \<le> (of_char c :: nat) \<and> (of_char c :: nat) \<le> 90)"

definition is_lower :: "char \<Rightarrow> bool" where
  "is_lower c = (97 \<le> (of_char c :: nat) \<and> (of_char c :: nat) \<le> 122)"

definition same_letter :: "char \<Rightarrow> char \<Rightarrow> bool" where
  "same_letter a b =
     (a = b \<or> (is_upper a \<and> (of_char b :: nat) = of_char a + 32)
            \<or> (is_upper b \<and> (of_char a :: nat) = of_char b + 32))"

fun eq_ignoring_case :: "string \<Rightarrow> string \<Rightarrow> bool" where
  "eq_ignoring_case [] [] = True"
| "eq_ignoring_case (a # s) (b # t) = (same_letter a b \<and> eq_ignoring_case s t)"
| "eq_ignoring_case _ _ = False"

text \<open>
  A record is malformed for \<^verbatim>\<open>get_connection\<close> when a key that \<^verbatim>\<open>pgdb.connect\<close>
  needs is missing or \<^verbatim>\<open>port\<close> is no integer; \<open>malformed_input env d e\<close> also names
  the exception \<open>e\<close> that is raised for it.
\<close>

definition malformed_input :: "env \<Rightarrow> pydict \<Rightarrow> error \<Rightarrow> bool" where
  "malformed_input env d e =
     ((\<exists>k \<in> set [''host'', ''username'', ''password''].
          map_of d k = None \<and> e = KeyError (MissingKey k))
      \<or> (\<exists>v. map_of d ''port'' = Some v \<and> py_int env v = Inl e))"

text \<open>
  What the driver answered to the connection attempts among the events \<open>es\<close>
  that follow the trace \<open>tr\<close>, in their order; \<open>attempts env w w1\<close> are the
  answers to the attempts made between the worlds \<open>w\<close> and \<open>w1\<close>. An attempt is
  a login failure when the driver raised \<^verbatim>\<open>pg.InternalError\<close>, the class under
  which it reports a connection that could not be made (no route, no such
  server, wrong password, TLS refused).
\<close>

fun outcomes :: "env \<Rightarrow> event list \<Rightarrow> event list \<Rightarrow> connect_outcome list" where
  "outcomes env tr [] = []"
| "outcomes env tr (Connect req # es) =
     pgdb_connect env tr req # outcomes env (tr @ [Connect req]) es"
| "outcomes env tr (e # es) = outcomes env (tr @ [e]) es"

definition attempts :: "env \<Rightarrow> world \<Rightarrow> world \<Rightarrow> connect_outcome list" where
  "attempts env w w1 = outcomes env (trace w) (drop (length (trace w)) (trace w1))"

fun login_failure :: "connect_outcome \<Rightarrow> bool" where
  "login_failure (ConnectRaises (PgInternalError _)) = True"
| "login_failure _ = False"

text \<open>
  How the result of a run of \<^verbatim>\<open>get_connection\<close> goes with the answers \<open>outs\<close> to
  its attempts: an exception is raised for a malformed record or is the
  exception of the last attempt, not a \<^verbatim>\<open>pg.InternalError\<close>; \<^verbatim>\<open>None\<close> is returned
  after attempts that all failed; a session is the one of the last attempt.
\<close>

definition reported ::
  "env \<Rightarrow> pydict \<Rightarrow> connect_outcome list \<Rightarrow> error + nat option \<Rightarrow> bool" where
  "reported env d outs r =
     (case r of
        Inl e \<Rightarrow> malformed_input env d e
                 \<or> (outs \<noteq> [] \<and> last outs = ConnectRaises e \<and> \<not> is_PgInternalError e)
      | Inr None \<Rightarrow> outs \<noteq> [] \<and> Connected \<notin> set outs
      | Inr (Some c) \<Rightarrow> outs \<noteq> [] \<and> last outs = Connected)"

text \<open>
  \<open>emits Q m\<close>: from every world, the step \<open>m\<close> only adds events to the trace, and
  each event it adds satisfies \<open>Q\<close>.
\<close>

definition emits :: "(event \<Rightarrow> bool) \<Rightarrow> 'a prog \<Rightarrow> bool" where
  "emits Q m = (\<forall>w. \<exists>es. trace (snd (m w)) = trace w @ es \<and> list_all Q es)"

fun is_Connect :: "event \<Rightarrow> bool" where
  "is_Connect (Connect _) = True"
| "is_Connect _ = False"

fun is_AlterUser :: "db_stmt \<Rightarrow> bool" where
  "is_AlterUser (AlterUser _ _) = True"
| "is_AlterUser _ = False"

fun alters_password :: "event \<Rightarrow> bool" where
  "alters_password (Execute _ (AlterUser _ _)) = True"
| "alters_password _ = False"

fun is_PutSecretValue :: "event \<Rightarrow> bool" where
  "is_PutSecretValue (PutSecretValue _ _ _ _) = True"
| "is_PutSecretValue _ = False"

text \<open>
  A role is created by a \<^verbatim>\<open>CREATE ROLE\<close> statement. \<open>empty_role_query env tr es\<close>:
  among the events \<open>es\<close> that follow the trace \<open>tr\<close> there is a query of the role
  catalog (\<^verbatim>\<open>SELECT 1 FROM pg_roles where rolname = ...\<close>) to which the server
  returned no row. \<open>prompted env m\<close>: from every world, the step \<open>m\<close> only adds
  events to the trace, and it creates a role only if one of its catalog
  queries returned no row.
\<close>

fun creates_role :: "event \<Rightarrow> bool" where
  "creates_role (Execute _ (CreateRole _ _)) = True"
| "creates_role _ = False"

fun empty_role_query :: "env \<Rightarrow> event list \<Rightarrow> event list \<Rightarrow> bool" where
  "empty_role_query env tr [] = False"
| "empty_role_query env tr (Execute c (SelectRole u) # es) =
     (cursor_execute env tr c (SelectRole u) = Rows []
      \<or> empty_role_query env (tr @ [Execute c (SelectRole u)]) es)"
| "empty_role_query env tr (e # es) = empty_role_query env (tr @ [e]) es"

definition prompted :: "env \<Rightarrow> 'a prog \<Rightarrow> bool" where
  "prompted env m =
     (\<forall>w. \<exists>es. trace (snd (m w)) = trace w @ es
            \<and> (list_ex creates_role es \<longrightarrow> empty_role_query env (trace w) es))"

text \<open>The database name \<^verbatim>\<open>get_connection\<close> passes to the driver.\<close>

definition dbname_of :: "pydict \<Rightarrow> jval" where
  "dbname_of d = (case map_of d ''dbname'' of Some v \<Rightarrow> v | None \<Rightarrow> JStr ''postgres'')"

text \<open>The \<^verbatim>\<open>VersionId\<close> that \<^verbatim>\<open>get_secret_dict\<close> passes to the vault for a token.\<close>

definition version_id :: "string \<Rightarrow> string option" where
  "version_id token = (if token \<noteq> [] then Some token else None)"

text \<open>The versions that hold the label \<^verbatim>\<open>AWSCURRENT\<close>, in the order of the map.\<close>

definition current_holders :: "(string \<times> string list) list \<Rightarrow> string list" where
  "current_holders versions =
     map fst (filter (\<lambda>(version, stages). ''AWSCURRENT'' \<in> set stages) versions)"

text \<open>
  The fetch of \<^verbatim>\<open>AWSPREVIOUS\<close> at the start of \<^verbatim>\<open>set_secret\<close> does not end the
  run: it gives a record, or an exception that the \<^verbatim>\<open>except\<close> clause catches.
\<close>

definition previous_absent_or_valid :: "env \<Rightarrow> string \<Rightarrow> world \<Rightarrow> bool" where
  "previous_absent_or_valid env arn w =
     (case get_secret_dict env (JStr arn) ''AWSPREVIOUS'' None False w of
        Inr _ \<Rightarrow> True
      | Inl e \<Rightarrow> e = ResourceNotFoundException \<or> is_KeyError e)"

text \<open>
  The \<^verbatim>\<open>ValueError\<close> of \<^verbatim>\<open>set_secret\<close> for a pending record that names another
  user or, with the same user, another host than the current record.
\<close>

definition mismatch_error :: "pydict \<Rightarrow> pydict \<Rightarrow> error" where
  "mismatch_error current pending =
     (if \<not> py_eq (dict_get current ''username'') (dict_get pending ''username'')
      then ValueError (ModifyOtherUser (dict_get pending ''username'')
                         (dict_get current ''username''))
      else ValueError (ModifyOtherHost (dict_get pending ''host'') (dict_get current ''host'')))"

section \<open>Example environments\<close>

definition w0 :: world where
  "w0 = \<lparr>trace = [], open_conns = []\<rparr>"

text \<open>An environment with an empty vault and a database nobody can log into.\<close>

definition silent_env :: env where
  "silent_env = \<lparr>
     environ = (\<lambda>_. None),
     int_of_str = (\<lambda>_. None),
     pgdb_connect = (\<lambda>_ _. ConnectRaises (PgInternalError ''could not connect to server'')),
     cursor_execute = (\<lambda>_ _ _. Rows []),
     conn_commit = (\<lambda>_ _. None),
     describe_db_instances = (\<lambda>_ _. DBInstances []),
     describe_secret = (\<lambda>_ _. Inl ResourceNotFoundException),
     get_secret_value = (\<lambda>_ _ _ _. Inl ResourceNotFoundException),
     get_random_password = (\<lambda>_ _. Inr ''Xq7_generated''),
     put_secret_value = (\<lambda>_ _ _ _ _. None),
     update_secret_version_stage = (\<lambda>_ _ _ _ _. None)\<rparr>"

text \<open>A vault given by its entries, a server given by the logins it accepts.\<close>

definition vault_of ::
  "(string \<times> string \<times> pydict) list \<Rightarrow>
   event list \<Rightarrow> jval \<Rightarrow> string option \<Rightarrow> string \<Rightarrow> error + secret_string" where
  "vault_of entries tr arn version stage =
     (case find (\<lambda>(a, s, d). JStr a = arn \<and> s = stage) entries of
        Some (a, s, d) \<Rightarrow> Inr (JsonText d)
      | None \<Rightarrow> Inl ResourceNotFoundException)"

definition accepts :: "(string \<times> string) list \<Rightarrow> event list \<Rightarrow> conn_req \<Rightarrow> connect_outcome" where
  "accepts logins tr req =
     (if list_ex (\<lambda>(u, p). req_user req = JStr u \<and> req_password req = JStr p) logins
      then Connected
      else ConnectRaises (PgInternalError ''password authentication failed''))"

text \<open>A server whose role catalog is empty; \<^verbatim>\<open>quote_ident\<close> returns its argument.\<close>

definition empty_catalog :: "event list \<Rightarrow> nat \<Rightarrow> db_stmt \<Rightarrow> exec_outcome" where
  "empty_catalog tr conn stmt = (case stmt of QuoteIdent v \<Rightarrow> Rows [[v]] | _ \<Rightarrow> Rows [])"

definition secret_of :: "string \<Rightarrow> string \<Rightarrow> pydict" where
  "secret_of user password =
     [(''engine'', JStr ''postgres''), (''host'', JStr ''primary.example''),
      (''username'', JStr user), (''password'', JStr password), (''ssl'', JBool False)]"

text \<open>A secret that asks for TLS, and a server that does not speak it.\<close>

definition strict_ssl_secret :: pydict where
  "strict_ssl_secret =
     [(''engine'', JStr ''postgres''), (''host'', JStr ''db.example''),
      (''username'', JStr ''app''), (''password'', JStr ''pw1''), (''ssl'', JBool True)]"

definition tls_refusing_env :: env where
  "tls_refusing_env = silent_env\<lparr>pgdb_connect :=
     (\<lambda>_ req. if req_verify_full req
               then ConnectRaises
                      (PgInternalError ''server does not support SSL, but SSL was required'')
               else Connected)\<rparr>"

text \<open>
  A master secret, a child on another host that the directory does not know,
  and a child on the master's host that has no \<^verbatim>\<open>dbname\<close>.
\<close>

definition master_secret :: pydict where
  "master_secret =
     [(''username'', JStr ''admin''), (''password'', JStr ''adminpw''),
      (''host'', JStr ''primary.example'')]"

definition replica_child :: pydict where
  "replica_child =
     [(''engine'', JStr ''postgres''), (''host'', JStr ''other.example''),
      (''username'', JStr ''app''), (''password'', JStr ''pw1''),
      (''masterarn'', JStr ''arn:master'')]"

definition same_host_child :: pydict where
  "same_host_child = secret_of ''app'' ''pw1'' @ [(''masterarn'', JStr ''arn:master'')]"

definition master_vault_env :: env where
  "master_vault_env = silent_env\<lparr>get_secret_value :=
     vault_of [(''arn:master'', ''AWSCURRENT'', master_secret)]\<rparr>"

text \<open>Version maps for \<^verbatim>\<open>finish_secret\<close>.\<close>

definition staged_env :: "(string \<times> string list) list \<Rightarrow> env" where
  "staged_env versions = silent_env\<lparr>describe_secret :=
     (\<lambda>_ _. Inr \<lparr>RotationEnabled = Some True, VersionIdsToStages = Some versions\<rparr>)\<rparr>"

text \<open>
  A vault that holds a current secret and gives back the pending secret that
  was put last.
\<close>

definition remembering_env :: env where
  "remembering_env = silent_env\<lparr>get_secret_value :=
     (\<lambda>tr arn version stage.
        if stage = ''AWSCURRENT'' then Inr (JsonText (secret_of ''app'' ''pw1''))
        else (case rev tr of
                PutSecretValue a t d s # _ \<Rightarrow> Inr (JsonText d)
              | _ \<Rightarrow> Inl ResourceNotFoundException))\<rparr>"

definition after_first_put :: world where
  "after_first_put =
     \<lparr>trace =
        [GetRandomPassword default_exclude_characters,
         PutSecretValue (JStr ''arn:app'') ''tok1''
           [(''engine'', JStr ''postgres''), (''host'', JStr ''primary.example''),
            (''username'', JStr ''app''), (''password'', JStr ''Xq7_generated''),
            (''ssl'', JBool False)]
           [''AWSPENDING'']],
      open_conns = []\<rparr>"

text \<open>
  The role was renamed since the previous rotation: only the previous
  credentials still log in.
\<close>

definition renamed_role_env :: env where
  "renamed_role_env = silent_env\<lparr>
     pgdb_connect := accepts [(''app_old'', ''pw0'')],
     get_secret_value := vault_of
       [(''arn:app'', ''AWSPREVIOUS'', secret_of ''app_old'' ''pw0''),
        (''arn:app'', ''AWSCURRENT'', secret_of ''app'' ''pw1''),
        (''arn:app'', ''AWSPENDING'', secret_of ''app'' ''pw2'')]\<rparr>"

text \<open>
  The current secret is managed by a master secret and its role \<^verbatim>\<open>app\<close> is not
  in the catalog; the pending secret names the role \<^verbatim>\<open>svc\<close>, which logs in.
\<close>

definition managed_current :: pydict where
  "managed_current = secret_of ''app'' ''pw1'' @
     [(''dbname'', JStr ''appdb''), (''masterarn'', JStr ''arn:master'')]"

definition provisioning_env :: env where
  "provisioning_env = silent_env\<lparr>
     pgdb_connect := accepts [(''admin'', ''adminpw''), (''svc'', ''pw2'')],
     cursor_execute := empty_catalog,
     get_secret_value := vault_of
       [(''arn:master'', ''AWSCURRENT'', master_secret),
        (''arn:app'', ''AWSCURRENT'', managed_current),
        (''arn:app'', ''AWSPENDING'', secret_of ''svc'' ''pw2'')]\<rparr>"

text \<open>
  Current and pending secret name different roles: with the pending one logging
  in, and with nobody logging in.
\<close>

definition mismatch_env :: env where
  "mismatch_env = silent_env\<lparr>
     pgdb_connect := accepts [(''svc'', ''pw2'')],
     get_secret_value := vault_of
       [(''arn:app'', ''AWSCURRENT'', secret_of ''app'' ''pw1''),
        (''arn:app'', ''AWSPENDING'', secret_of ''svc'' ''pw2'')]\<rparr>"

definition locked_out_env :: env where
  "locked_out_env = silent_env\<lparr>
     get_secret_value := vault_of
       [(''arn:app'', ''AWSCURRENT'', secret_of ''app'' ''pw1''),
        (''arn:app'', ''AWSPENDING'', secret_of ''svc'' ''pw2'')]\<rparr>"

text \<open>
  The current secret is managed by a master secret, its role is in the catalog
  and the pending password is already set.
\<close>

definition full_catalog :: "event list \<Rightarrow> nat \<Rightarrow> db_stmt \<Rightarrow> exec_outcome" where
  "full_catalog tr conn stmt =
     (case stmt of
        QuoteIdent v \<Rightarrow> Rows [[v]]
      | SelectRole v \<Rightarrow> Rows [[JInt 1]]
      | _ \<Rightarrow> Rows [])"

definition managed_settled_env :: env where
  "managed_settled_env = silent_env\<lparr>
     pgdb_connect := accepts [(''admin'', ''adminpw''), (''app'', ''pw2'')],
     cursor_execute := full_catalog,
     get_secret_value := vault_of
       [(''arn:master'', ''AWSCURRENT'', master_secret),
        (''arn:app'', ''AWSCURRENT'', managed_current),
        (''arn:app'', ''AWSPENDING'', secret_of ''app'' ''pw2'')]\<rparr>"

definition after_provisioning :: world where
  "after_provisioning =
     \<lparr>trace =
        [Connect \<lparr>req_host = JStr ''primary.example'', req_user = JStr ''admin'',
           req_password = JStr ''adminpw'', req_database = JStr ''appdb'',
           req_port = 5432, req_verify_full = False\<rparr>,
         Execute 0 (QuoteIdent (JStr ''app'')),
         Execute 0 (SelectRole (JStr ''app'')),
         Commit 0,
         Close 0],
      open_conns = []\<rparr>"

section \<open>The SSL policy\<close>

lemma lower_char_eq_iff:
  assumes "is_lower b"
  shows "lower_char a = b \<longleftrightarrow> same_letter a b"
proof (cases "is_upper a")
  case True
  then have la: "lower_char a = char_of ((of_char a :: nat) + 32)"
    by (simp add: lower_char_def is_upper_def Let_def)
  have nb: "\<not> is_upper b" "a \<noteq> b"
    using assms True by (auto simp: is_upper_def is_lower_def)
  have "lower_char a = b \<longleftrightarrow> (of_char a :: nat) + 32 = of_char b"
    using True by (simp add: la char_of_eq_iff take_bit_eq_mod is_upper_def)
  then show ?thesis
    using nb True by (auto simp: same_letter_def)
next
  case False
  then have "lower_char a = a"
    by (auto simp: lower_char_def is_upper_def Let_def)
  moreover have "\<not> is_upper b"
    using assms by (auto simp: is_upper_def is_lower_def)
  ultimately show ?thesis
    using False by (auto simp: same_letter_def)
qed

lemma py_lower_eq_iff:
  "list_all is_lower t \<Longrightarrow> py_lower s = t \<longleftrightarrow> eq_ignoring_case s t"
proof (induction s arbitrary: t)
  case Nil
  then show ?case by (cases t) (simp_all add: py_lower_def)
next
  case (Cons a s)
  show ?case
  proof (cases t)
    case Nil
    then show ?thesis by (simp add: py_lower_def)
  next
    case (Cons b u)
    with Cons.prems have "is_lower b" "list_all is_lower u" by simp_all
    then show ?thesis
      using Cons.IH [of u] lower_char_eq_iff [of b a] Cons
      by (auto simp: py_lower_def)
  qed
qed

lemma lower_true: "py_lower s = ''true'' \<longleftrightarrow> eq_ignoring_case s ''true''"
  by (rule py_lower_eq_iff) (simp add: is_lower_def)

lemma lower_false: "py_lower s = ''false'' \<longleftrightarrow> eq_ignoring_case s ''false''"
  by (rule py_lower_eq_iff) (simp add: is_lower_def)

text \<open>
  C9. \<^verbatim>\<open>get_ssl_config\<close> resolves the \<^verbatim>\<open>ssl\<close> field so: no key gives
  \<open>(True, True)\<close>; a boolean \<open>b\<close> gives \<open>(b, False)\<close>; a string equal to
  \<^verbatim>\<open>"true"\<close> ignoring case gives \<open>(True, False)\<close>, one equal to \<^verbatim>\<open>"false"\<close> ignoring
  case gives \<open>(False, False)\<close>, any other string gives \<open>(True, True)\<close>; a value
  that is neither a boolean nor a string gives \<open>(True, True)\<close>.
\<close>

theorem get_ssl_config_tristate:
  "(map_of d ''ssl'' = None \<longrightarrow> get_ssl_config d = (True, True))
   \<and> (\<forall>b. map_of d ''ssl'' = Some (JBool b) \<longrightarrow> get_ssl_config d = (b, False))
   \<and> (\<forall>s. map_of d ''ssl'' = Some (JStr s) \<and> eq_ignoring_case s ''true''
          \<longrightarrow> get_ssl_config d = (True, False))
   \<and> (\<forall>s. map_of d ''ssl'' = Some (JStr s) \<and> eq_ignoring_case s ''false''
          \<longrightarrow> get_ssl_config d = (False, False))
   \<and> (\<forall>s. map_of d ''ssl'' = Some (JStr s) \<and> \<not> eq_ignoring_case s ''true''
            \<and> \<not> eq_ignoring_case s ''false''
          \<longrightarrow> get_ssl_config d = (True, True))
   \<and> (\<forall>v. map_of d ''ssl'' = Some v \<and> (\<forall>b. v \<noteq> JBool b) \<and> (\<forall>s. v \<noteq> JStr s)
          \<longrightarrow> get_ssl_config d = (True, True))"
proof -
  have str: "get_ssl_config d =
      (if eq_ignoring_case s ''true'' then (True, False)
       else if eq_ignoring_case s ''false'' then (False, False) else (True, True))"
    if "map_of d ''ssl'' = Some (JStr s)" for s
    using that lower_true [of s] lower_false [of s]
    by (simp add: get_ssl_config_def Let_def)
  have other: "get_ssl_config d = (True, True)"
    if "map_of d ''ssl'' = Some v" "\<forall>b. v \<noteq> JBool b" "\<forall>s. v \<noteq> JStr s" for v
    using that by (cases v) (auto simp: get_ssl_config_def)
  have true_not_false: "\<not> eq_ignoring_case s ''false''" if "eq_ignoring_case s ''true''" for s
    using that lower_true [of s] lower_false [of s] by auto
  show ?thesis
    using str other true_not_false by (auto simp: get_ssl_config_def)
qed

theorem get_ssl_config_tristate_witness:
  "get_ssl_config [] = (True, True)
   \<and> get_ssl_config [(''ssl'', JBool False)] = (False, False)
   \<and> get_ssl_config [(''ssl'', JStr ''True'')] = (True, False)
   \<and> get_ssl_config [(''ssl'', JStr ''FALSE'')] = (False, False)
   \<and> get_ssl_config [(''ssl'', JStr ''yes'')] = (True, True)
   \<and> get_ssl_config [(''ssl'', JInt 1)] = (True, True)"
proof (intro conjI)
  show "get_ssl_config [] = (True, True)"
    using get_ssl_config_tristate [of "[]"] by simp
  show "get_ssl_config [(''ssl'', JBool False)] = (False, False)"
    using get_ssl_config_tristate [of "[(''ssl'', JBool False)]"] by auto
  have "eq_ignoring_case ''True'' ''true''"
    by (simp add: same_letter_def is_upper_def)
  then show "get_ssl_config [(''ssl'', JStr ''True'')] = (True, False)"
    using get_ssl_config_tristate [of "[(''ssl'', JStr ''True'')]"] by simp
  have "eq_ignoring_case ''FALSE'' ''false''"
    by (simp add: same_letter_def is_upper_def)
  then show "get_ssl_config [(''ssl'', JStr ''FALSE'')] = (False, False)"
    using get_ssl_config_tristate [of "[(''ssl'', JStr ''FALSE'')]"] by simp
  have "\<not> eq_ignoring_case ''yes'' ''true''" "\<not> eq_ignoring_case ''yes'' ''false''"
    by simp_all
  then show "get_ssl_config [(''ssl'', JStr ''yes'')] = (True, True)"
    using get_ssl_config_tristate [of "[(''ssl'', JStr ''yes'')]"] by simp
  show "get_ssl_config [(''ssl'', JInt 1)] = (True, True)"
    using get_ssl_config_tristate [of "[(''ssl'', JInt 1)]"] by auto
qed

section \<open>Connections\<close>

lemma connect_args_Inl:
  "connect_args d port dbname vf = Inl e \<Longrightarrow>
   \<exists>k \<in> set [''host'', ''username'', ''password''].
      map_of d k = None \<and> e = KeyError (MissingKey k)"
  by (auto simp: connect_args_def subscript_def split: option.splits)

lemma outcomes_append:
  "outcomes env tr (es1 @ es2) = outcomes env tr es1 @ outcomes env (tr @ es1) es2"
  by (induction env tr es1 rule: outcomes.induct) simp_all

lemma connect_run:
  assumes "connect env req w = (r, w1)"
  shows "trace w1 = trace w @ [Connect req]"
    and "r = (case pgdb_connect env (trace w) req of
                Connected \<Rightarrow> Inr (length (trace w)) | ConnectRaises e \<Rightarrow> Inl e)"
  using assms by (auto simp: connect_def emit_def split: connect_outcome.splits)

lemma plain_reported:
  assumes "connect_and_authenticate env d port dbname False w = (r, w1)"
  shows "\<exists>es. trace w1 = trace w @ es \<and> reported env d (outcomes env (trace w) es) r"
proof (cases "connect_args d port dbname False")
  case (Inl e)
  with assms have "r = Inl e" "w1 = w" by (simp_all add: connect_and_authenticate.simps)
  moreover have "malformed_input env d e"
    using connect_args_Inl [OF Inl] by (simp add: malformed_input_def)
  ultimately show ?thesis by (simp add: reported_def)
next
  case (Inr req)
  obtain r0 w2 where c: "connect env req w = (r0, w2)" by (cases "connect env req w")
  note run = connect_run [OF c]
  have "reported env d [pgdb_connect env (trace w) req] r \<and> w1 = w2"
    using assms Inr c run(2)
    by (cases "pgdb_connect env (trace w) req")
       (auto simp: connect_and_authenticate.simps reported_def split: if_splits
             elim: is_PgInternalError.elims)
  with run(1) show ?thesis by (intro exI [of _ "[Connect req]"]) simp
qed

lemma caa_reported:
  assumes "connect_and_authenticate env d port dbname use_ssl w = (r, w1)"
  shows "\<exists>es. trace w1 = trace w @ es \<and> reported env d (outcomes env (trace w) es) r"
proof (cases use_ssl)
  case False
  with assms show ?thesis using plain_reported by simp
next
  case True
  show ?thesis
  proof (cases "connect_args d port dbname True")
    case (Inl e)
    with assms True show ?thesis
      using plain_reported [of env d port dbname w r w1]
      by (simp add: connect_and_authenticate.simps [of _ _ _ _ True])
  next
    case (Inr req)
    obtain r0 w2 where c: "connect env req w = (r0, w2)" by (cases "connect env req w")
    note run = connect_run [OF c]
    show ?thesis
    proof (cases "pgdb_connect env (trace w) req")
      case Connected
      with assms True Inr c run have "r = Inr (Some (length (trace w)))" "w1 = w2"
        by (simp_all add: connect_and_authenticate.simps [of _ _ _ _ True])
      with run(1) Connected show ?thesis
        by (intro exI [of _ "[Connect req]"]) (simp add: reported_def)
    next
      case (ConnectRaises e)
      with assms True Inr c run
      have "connect_and_authenticate env d port dbname False w2 = (r, w1)"
        by (simp add: connect_and_authenticate.simps [of _ _ _ _ True])
      from plain_reported [OF this] obtain es where
        es: "trace w1 = trace w2 @ es" "reported env d (outcomes env (trace w2) es) r"
        by auto
      have "reported env d (ConnectRaises e # outcomes env (trace w2) es) r"
        using es(2) by (auto simp: reported_def split: sum.splits option.splits)
      with es(1) run(1) ConnectRaises show ?thesis
        by (intro exI [of _ "Connect req # es"]) simp
    qed
  qed
qed

lemma get_connection_reported:
  assumes "get_connection env d w = (r, w1)"
  shows "\<exists>es. trace w1 = trace w @ es \<and> reported env d (outcomes env (trace w) es) r"
proof (cases "case map_of d ''port'' of Some v \<Rightarrow> py_int env v | None \<Rightarrow> Inr 5432")
  case (Inl e)
  with assms have "r = Inl e" "w1 = w" by (simp_all add: get_connection_def)
  moreover from Inl have "malformed_input env d e"
    by (auto simp: malformed_input_def split: option.splits)
  ultimately show ?thesis by (simp add: reported_def)
next
  case (Inr port)
  obtain r1 w2 where first: "connect_and_authenticate env d port (dbname_of d)
      (fst (get_ssl_config d)) w = (r1, w2)"
    by (cases "connect_and_authenticate env d port (dbname_of d) (fst (get_ssl_config d)) w")
  from caa_reported [OF first] obtain es1 where
    es1: "trace w2 = trace w @ es1" "reported env d (outcomes env (trace w) es1) r1"
    by auto
  show ?thesis
  proof (cases "r1 = Inr None \<and> snd (get_ssl_config d)")
    case False
    with assms Inr first have "r = r1" "w1 = w2"
      by (auto simp: get_connection_def dbname_of_def Let_def
               split: prod.splits sum.splits if_splits)
    with es1 show ?thesis by auto
  next
    case True
    with assms Inr first
    have "connect_and_authenticate env d port (dbname_of d) False w2 = (r, w1)"
      by (auto simp: get_connection_def dbname_of_def Let_def
               split: prod.splits sum.splits if_splits)
    from plain_reported [OF this] obtain es2 where
      es2: "trace w1 = trace w2 @ es2" "reported env d (outcomes env (trace w2) es2) r"
      by auto
    have "reported env d (outcomes env (trace w) es1 @ outcomes env (trace w2) es2) r"
      using es1(2) es2(2) True
      by (auto simp: reported_def split: sum.splits option.splits)
    with es1(1) es2(1) show ?thesis
      by (intro exI [of _ "es1 @ es2"]) (simp add: outcomes_append)
  qed
qed

text \<open>
  C6. Take any run of \<^verbatim>\<open>get_connection\<close> in which every connection attempt
  either connected or failed with \<^verbatim>\<open>pg.InternalError\<close>, that is, with a login or
  network failure; what the server would answer to other requests does not
  matter. If the run raises, the record is malformed (a missing \<^verbatim>\<open>host\<close>,
  \<^verbatim>\<open>username\<close> or \<^verbatim>\<open>password\<close>, or a \<^verbatim>\<open>port\<close> that is no integer). For a well-formed
  record the run returns, and it returns \<^verbatim>\<open>None\<close> exactly when none of its
  attempts connected.
\<close>

theorem get_connection_failure_is_null:
  assumes run: "get_connection env d w = (r, w1)"
    and fails: "list_all (\<lambda>out. out = Connected \<or> login_failure out) (attempts env w w1)"
  shows "(\<forall>e. r = Inl e \<longrightarrow> malformed_input env d e)
       \<and> ((\<forall>e. \<not> malformed_input env d e)
            \<longrightarrow> (\<exists>conn. r = Inr conn
                  \<and> (conn = None \<longleftrightarrow> Connected \<notin> set (attempts env w w1))))"
proof -
  from get_connection_reported [OF run] obtain es where
    es: "trace w1 = trace w @ es" "reported env d (outcomes env (trace w) es) r"
    by auto
  then have a: "attempts env w w1 = outcomes env (trace w) es"
    by (simp add: attempts_def)
  have raised: "malformed_input env d e" if "r = Inl e" for e
  proof (rule ccontr)
    assume "\<not> malformed_input env d e"
    with es(2) that a have ne: "attempts env w w1 \<noteq> []"
      and l: "last (attempts env w w1) = ConnectRaises e" and ni: "\<not> is_PgInternalError e"
      by (auto simp: reported_def)
    from ne l have "ConnectRaises e \<in> set (attempts env w w1)"
      by (metis last_in_set)
    with fails have "login_failure (ConnectRaises e)"
      by (auto simp: list_all_iff)
    with ni show False by (cases e) simp_all
  qed
  have returned: "conn = None \<longleftrightarrow> Connected \<notin> set (attempts env w w1)" if "r = Inr conn" for conn
    using es(2) that a by (cases conn) (auto simp: reported_def dest: last_in_set)
  show ?thesis
    using raised returned by (cases r) auto
qed


theorem get_connection_failure_is_null_witness:
  "fst (get_connection renamed_role_env (secret_of ''app'' ''pw1'') w0) = Inr None
   \<and> malformed_input silent_env [] (KeyError (MissingKey ''host''))"
proof
  let ?run = "get_connection renamed_role_env (secret_of ''app'' ''pw1'') w0"
  have run: "?run = (fst ?run, snd ?run)" by simp
  have fails: "list_all (\<lambda>out. out = Connected \<or> login_failure out)
      (attempts renamed_role_env w0 (snd ?run))"
    by code_simp
  have none: "Connected \<notin> set (attempts renamed_role_env w0 (snd ?run))"
    by code_simp
  have "\<forall>e. \<not> malformed_input renamed_role_env (secret_of ''app'' ''pw1'') e"
    by (simp add: malformed_input_def secret_of_def)
  with get_connection_failure_is_null [OF run fails] none
  show "fst ?run = Inr None" by auto
next
  let ?run = "get_connection silent_env [] w0"
  have run: "?run = (fst ?run, snd ?run)" by simp
  have fails: "list_all (\<lambda>out. out = Connected \<or> login_failure out)
      (attempts silent_env w0 (snd ?run))"
    by code_simp
  have "fst ?run = Inl (KeyError (MissingKey ''host''))"
    by code_simp
  with get_connection_failure_is_null [OF run fails]
  show "malformed_input silent_env [] (KeyError (MissingKey ''host''))" by blast
qed


text \<open>
  C1. The secret has the boolean \<^verbatim>\<open>ssl = True\<close>, so \<^verbatim>\<open>get_ssl_config\<close> gives
  \<open>fall_back = False\<close>. The server refuses the \<^verbatim>\<open>verify-full\<close> attempt. The claim
  asks for \<^verbatim>\<open>None\<close> and no second attempt; \<^verbatim>\<open>connect_and_authenticate\<close> calls
  itself without SSL all the same, and \<^verbatim>\<open>get_connection\<close> returns the session
  of that second attempt.
\<close>

theorem get_connection_retries_without_ssl:
  "get_ssl_config strict_ssl_secret = (True, False)
   \<and> get_connection tls_refusing_env strict_ssl_secret w0 =
       (Inr (Some 1),
        \<lparr>trace = [Connect \<lparr>req_host = JStr ''db.example'', req_user = JStr ''app'',
                    req_password = JStr ''pw1'', req_database = JStr ''postgres'',
                    req_port = 5432, req_verify_full = True\<rparr>,
                  Connect \<lparr>req_host = JStr ''db.example'', req_user = JStr ''app'',
                    req_password = JStr ''pw1'', req_database = JStr ''postgres'',
                    req_port = 5432, req_verify_full = False\<rparr>],
         open_conns = [1]\<rparr>)"
  by (simp add: get_connection_def get_ssl_config_def strict_ssl_secret_def
      connect_and_authenticate.simps connect_args_def subscript_def connect_def
      tls_refusing_env_def silent_env_def w0_def emit_def Let_def)

theorem get_connection_retries_without_ssl_witness:
  "fst (get_connection tls_refusing_env strict_ssl_secret w0) = Inr (Some 1)"
  using get_connection_retries_without_ssl by simp

section \<open>What a step adds to the trace\<close>

lemma emitsI:
  "(\<And>w. \<exists>es. trace (snd (m w)) = trace w @ es \<and> list_all Q es) \<Longrightarrow> emits Q m"
  by (simp add: emits_def)

lemma emitsD:
  "emits Q m \<Longrightarrow> \<exists>es. trace (snd (m w)) = trace w @ es \<and> list_all Q es"
  by (simp add: emits_def)

lemma emits_return [intro!, simp]: "emits Q (return x)"
  by (simp add: emits_def return_def)

lemma emits_raise [intro!, simp]: "emits Q (raise e)"
  by (simp add: emits_def raise_def)

lemma emits_lift [intro!, simp]: "emits Q (lift r)"
  by (simp add: emits_def lift_def)

lemma emits_fetch [intro!, simp]: "emits Q (fetch env arn stage token ms)"
  by (simp add: emits_def fetch_def)

lemma emits_bind [intro!]:
  assumes m: "emits Q m" and f: "\<And>x. emits Q (f x)"
  shows "emits Q (bind m f)"
proof (rule emitsI)
  fix w
  obtain r w1 where mw: "m w = (r, w1)" by (cases "m w")
  from emitsD [OF m, of w] mw obtain es where es: "trace w1 = trace w @ es" "list_all Q es"
    by auto
  show "\<exists>es. trace (snd (bind m f w)) = trace w @ es \<and> list_all Q es"
  proof (cases r)
    case (Inl e)
    with mw es show ?thesis by (auto simp: bind_def)
  next
    case (Inr x)
    from emitsD [OF f, of x w1] obtain es' where
      "trace (snd (f x w1)) = trace w1 @ es'" "list_all Q es'" by auto
    with Inr mw es show ?thesis by (auto simp: bind_def)
  qed
qed

lemma emits_try_finally [intro!]:
  assumes m: "emits Q m" and c: "Q (Close c)"
  shows "emits Q (try_finally m (close c))"
proof (rule emitsI)
  fix w
  obtain r w1 where mw: "m w = (r, w1)" by (cases "m w")
  from emitsD [OF m, of w] mw obtain es where "trace w1 = trace w @ es" "list_all Q es"
    by auto
  with mw c show "\<exists>es. trace (snd (try_finally m (close c) w)) = trace w @ es \<and> list_all Q es"
    by (auto simp: try_finally_def close_def emit_def)
qed

lemma emits_execute [intro!]: "Q (Execute c stmt) \<Longrightarrow> emits Q (execute env c stmt)"
  by (auto simp: emits_def execute_def emit_def split: exec_outcome.splits)

lemma emits_commit [intro!]: "Q (Commit c) \<Longrightarrow> emits Q (commit env c)"
  by (auto simp: emits_def commit_def emit_def split: option.splits)

lemma emits_connect: "Q (Connect req) \<Longrightarrow> emits Q (connect env req)"
  by (auto simp: emits_def connect_def emit_def split: connect_outcome.splits)

lemma trace_close: "trace (close c w) = trace w @ [Close c]"
  by (simp add: close_def emit_def)

lemma connect_args_fields:
  "connect_args d port dbname vf = Inr req \<Longrightarrow>
   req_database req = dbname \<and> req_port req = port \<and> req_verify_full req = vf"
  by (auto simp: connect_args_def split: sum.splits)

text \<open>Every attempt of \<^verbatim>\<open>connect_and_authenticate\<close> names the database it was given.\<close>

lemma emits_caa:
  assumes Q: "\<And>req. req_database req = dbname \<Longrightarrow> Q (Connect req)"
  shows "emits Q (connect_and_authenticate env d port dbname use_ssl)"
proof -
  have plain: "emits Q (connect_and_authenticate env d port dbname False)"
  proof (rule emitsI)
    fix w
    show "\<exists>es. trace (snd (connect_and_authenticate env d port dbname False w)) = trace w @ es
        \<and> list_all Q es"
    proof (cases "connect_args d port dbname False")
      case (Inl e)
      then show ?thesis by (simp add: connect_and_authenticate.simps)
    next
      case (Inr req)
      then have "Q (Connect req)" using Q connect_args_fields by blast
      then have "emits Q (connect env req)" by (rule emits_connect)
      from emitsD [OF this, of w] Inr show ?thesis
        by (auto simp: connect_and_authenticate.simps split: prod.splits sum.splits)
    qed
  qed
  show ?thesis
  proof (cases use_ssl)
    case False
    with plain show ?thesis by simp
  next
    case True
    show ?thesis
    proof (rule emitsI)
      fix w
      show "\<exists>es. trace (snd (connect_and_authenticate env d port dbname use_ssl w)) = trace w @ es
        \<and> list_all Q es"
      proof (cases "connect_args d port dbname True")
        case (Inl e)
        with True emitsD [OF plain, of w] show ?thesis
          by (simp add: connect_and_authenticate.simps [of _ _ _ _ True])
      next
        case (Inr req)
        then have "Q (Connect req)" using Q connect_args_fields by blast
        then have "emits Q (connect env req)" by (rule emits_connect)
        from emitsD [OF this, of w]
        obtain es where es: "trace (snd (connect env req w)) = trace w @ es" "list_all Q es"
          by auto
        obtain r w1 where c: "connect env req w = (r, w1)" by (cases "connect env req w")
        show ?thesis
        proof (cases r)
          case (Inl e)
          from emitsD [OF plain, of w1] obtain es' where
            "trace (snd (connect_and_authenticate env d port dbname False w1)) = trace w1 @ es'"
            "list_all Q es'" by auto
          with Inl c es Inr True show ?thesis
            by (auto simp: connect_and_authenticate.simps [of _ _ _ _ True])
        next
          case (Inr conn)
          with c es \<open>connect_args d port dbname True = Inr req\<close> True show ?thesis
            by (auto simp: connect_and_authenticate.simps [of _ _ _ _ True])
        qed
      qed
    qed
  qed
qed

lemma get_connection_bind:
  "get_connection env d =
     bind (lift (case map_of d ''port'' of Some v \<Rightarrow> py_int env v | None \<Rightarrow> Inr 5432)) (\<lambda>port.
     bind (connect_and_authenticate env d port (dbname_of d) (fst (get_ssl_config d))) (\<lambda>conn.
       if conn \<noteq> None \<or> \<not> snd (get_ssl_config d) then return conn
       else connect_and_authenticate env d port (dbname_of d) False))"
  by (rule ext)
     (auto simp: get_connection_def bind_def lift_def return_def dbname_of_def Let_def
           split: sum.splits prod.splits)

lemma emits_get_connection:
  assumes Q: "\<And>req. req_database req = dbname_of d \<Longrightarrow> Q (Connect req)"
  shows "emits Q (get_connection env d)"
  unfolding get_connection_bind
  by (intro emits_bind emits_lift emits_caa) (auto intro: emits_caa Q)

lemma emits_get_connection_connects: "emits is_Connect (get_connection env d)"
  by (rule emits_get_connection) simp

lemma emits_is_rds:
  assumes "\<And>i. Q (DescribeDBInstances i)"
  shows "emits Q (is_rds_replica_database env r m)"
  unfolding is_rds_replica_database_def
proof (intro emits_bind emits_lift)
  fix a b c i
  show "emits Q (\<lambda>w. case describe_db_instances env (trace w) b of
            DBInstances [] \<Rightarrow> (Inr False, emit (DescribeDBInstances b) w)
          | DBInstances (current_instance # x) \<Rightarrow>
              (Inr (py_eq (JStr i)
                      (dict_get current_instance ''ReadReplicaSourceDBInstanceIdentifier'')),
               emit (DescribeDBInstances b) w)
          | RdsRaises err \<Rightarrow> (Inr False, emit (DescribeDBInstances b) w))"
    using assms by (auto simp: emits_def emit_def split: rds_outcome.splits list.splits)
qed

section \<open>Provisioning: unrelated hosts and the database name\<close>

lemma map_of_update:
  "map_of (AList.update k v al) k' = (if k' = k then Some v else map_of al k')"
  by (simp add: update_conv')

lemma subscript_truthy:
  "py_truthy (dict_get d k) \<Longrightarrow> subscript d k = Inr (dict_get d k)"
  by (auto simp: subscript_def dict_get_def split: option.splits)

text \<open>The copy loop leaves alone every key whose value in the master record is true.\<close>

lemma backfill_keeps:
  "py_truthy (dict_get m k) \<Longrightarrow> map_of (backfill c m) k = map_of m k"
  unfolding backfill_def
proof (induction c arbitrary: m)
  case Nil
  then show ?case by simp
next
  case (Cons a c)
  obtain key val where a: "a = (key, val)" by (cases a)
  let ?m = "if \<not> py_truthy (dict_get m key) then AList.update key val m else m"
  have same: "map_of ?m k = map_of m k"
    using Cons.prems by (auto simp: map_of_update)
  then have "py_truthy (dict_get ?m k)"
    using Cons.prems by (simp add: dict_get_def)
  from Cons.IH [OF this] same a show ?case by simp
qed

lemma prepare_master_dbname:
  "map_of (prepare_master child master) ''dbname'' = Some (dict_get child ''dbname'')"
  by (simp add: prepare_master_def map_of_update)

lemma prepare_master_keeps:
  "k \<noteq> ''dbname'' \<Longrightarrow> py_truthy (dict_get master k) \<Longrightarrow>
   map_of (prepare_master child master) k = map_of master k"
  by (simp add: prepare_master_def map_of_update backfill_keeps)

lemma dbname_of_prepare_master:
  "dbname_of (prepare_master child master) = dict_get child ''dbname''"
  by (simp add: dbname_of_def prepare_master_dbname)

lemma emits_create_user:
  assumes conn: "\<And>req. req_database req = dict_get child ''dbname'' \<Longrightarrow> Q (Connect req)"
    and rds: "\<And>i. Q (DescribeDBInstances i)"
    and exec: "\<And>c s. \<not> is_AlterUser s \<Longrightarrow> Q (Execute c s)"
    and commit: "\<And>c. Q (Commit c)"
    and close: "\<And>c. Q (Close c)"
  shows "emits Q (create_user_if_not_exists env child)"
  unfolding create_user_if_not_exists_def Let_def
  by (auto intro!: emits_is_rds emits_get_connection
           simp: dbname_of_prepare_master conn rds exec commit close
           split: option.splits)

lemma emits_create_user_no_alter:
  "emits (\<lambda>e. \<not> alters_password e) (create_user_if_not_exists env d)"
proof (rule emits_create_user)
  fix c s
  assume "\<not> is_AlterUser s"
  then show "\<not> alters_password (Execute c s)" by (cases s) simp_all
qed simp_all

lemma create_user_without_master:
  "\<not> py_truthy (dict_get d ''masterarn'') \<Longrightarrow> create_user_if_not_exists env d w = (Inr False, w)"
  by (simp add: create_user_if_not_exists_def return_def)

text \<open>
  C5. The child names a master secret (\<^verbatim>\<open>masterarn\<close>) whose host \<open>h'\<close> differs from
  the child's host \<open>h\<close>, and \<^verbatim>\<open>is_rds_replica_database\<close> answers \<^verbatim>\<open>False\<close>. Then
  \<^verbatim>\<open>create_user_if_not_exists\<close> raises the \<^verbatim>\<open>ValueError\<close> about the unrelated host;
  the only call it has made is the directory lookup, so no connection to the
  database was attempted and no session is open that was not open before.
\<close>

theorem create_user_unrelated_host:
  assumes marn: "py_truthy (dict_get child ''masterarn'')"
    and fetched: "get_secret_dict env (dict_get child ''masterarn'') ''AWSCURRENT'' None True w
                  = Inr master"
    and ch: "map_of child ''host'' = Some (JStr h)"
    and mh: "map_of master ''host'' = Some (JStr h')"
    and diff: "h' \<noteq> h" "h' \<noteq> []"
    and norep: "is_rds_replica_database env child (prepare_master child master) w = (Inr False, w1)"
  shows "create_user_if_not_exists env child w =
           (Inl (ValueError (NotSameHostOrReplica (JStr h) (JStr h'))), w1)
         \<and> trace w1 = trace w @ [DescribeDBInstances (takeWhile (\<lambda>c. c \<noteq> CHR ''.'') h)]
         \<and> open_conns w1 = open_conns w"
proof -
  have pm: "map_of (prepare_master child master) ''host'' = Some (JStr h')"
    using mh diff by (simp add: prepare_master_keeps dict_get_def)
  have sm: "subscript child ''masterarn'' = Inr (dict_get child ''masterarn'')"
    using marn by (rule subscript_truthy)
  have sh: "subscript child ''host'' = Inr (JStr h)"
    using ch by (simp add: subscript_def)
  have smh: "subscript (prepare_master child master) ''host'' = Inr (JStr h')"
    using pm by (simp add: subscript_def)
  have run: "create_user_if_not_exists env child w =
           (Inl (ValueError (NotSameHostOrReplica (JStr h) (JStr h'))), w1)"
    using marn fetched diff norep
    by (simp add: create_user_if_not_exists_def sm sh smh bind_def lift_def fetch_def
        return_def raise_def Let_def)
  have w1: "w1 = emit (DescribeDBInstances (takeWhile (\<lambda>c. c \<noteq> CHR ''.'') h)) w"
    using norep ch pm
    by (auto simp: is_rds_replica_database_def bind_def lift_def subscript_def instance_id_def
             split: rds_outcome.splits list.splits)
  from run w1 show ?thesis by (simp add: emit_def)
qed

theorem create_user_unrelated_host_witness:
  "create_user_if_not_exists master_vault_env replica_child w0 =
     (Inl (ValueError (NotSameHostOrReplica (JStr ''other.example'') (JStr ''primary.example''))),
      \<lparr>trace = [DescribeDBInstances ''other''], open_conns = []\<rparr>)"
proof -
  have m: "py_truthy (dict_get replica_child ''masterarn'')"
    by code_simp
  have f: "get_secret_dict master_vault_env (dict_get replica_child ''masterarn'') ''AWSCURRENT''
             None True w0 = Inr master_secret"
    by code_simp
  have ch: "map_of replica_child ''host'' = Some (JStr ''other.example'')"
    by (simp add: replica_child_def)
  have mh: "map_of master_secret ''host'' = Some (JStr ''primary.example'')"
    by (simp add: master_secret_def)
  have r: "is_rds_replica_database master_vault_env replica_child
             (prepare_master replica_child master_secret) w0
           = (Inr False, emit (DescribeDBInstances ''other'') w0)"
    by code_simp
  from create_user_unrelated_host [OF m f ch mh _ _ r]
  show ?thesis by (simp add: emit_def w0_def)
qed

text \<open>
  C10. For a child without the key \<^verbatim>\<open>dbname\<close>, the master record that
  \<^verbatim>\<open>create_user_if_not_exists\<close> prepares has \<^verbatim>\<open>dbname\<close> set to \<^verbatim>\<open>None\<close>, whatever
  the master record held; the key is then present, so \<^verbatim>\<open>get_connection\<close> does not
  put \<^verbatim>\<open>"postgres"\<close> in its place, and every connection attempt that
  \<^verbatim>\<open>create_user_if_not_exists\<close> makes names the database \<^verbatim>\<open>None\<close>.
\<close>

theorem create_user_null_dbname:
  assumes "map_of child ''dbname'' = None"
  shows "map_of (prepare_master child master) ''dbname'' = Some JNull
         \<and> dbname_of (prepare_master child master) = JNull
         \<and> (\<exists>es. trace (snd (create_user_if_not_exists env child w)) = trace w @ es
              \<and> list_all (\<lambda>e. \<forall>req. e = Connect req \<longrightarrow> req_database req = JNull) es)"
proof (intro conjI)
  from assms have g: "dict_get child ''dbname'' = JNull"
    by (simp add: dict_get_def)
  then show "map_of (prepare_master child master) ''dbname'' = Some JNull"
    by (simp add: prepare_master_dbname)
  from g show "dbname_of (prepare_master child master) = JNull"
    by (simp add: dbname_of_prepare_master)
  have "emits (\<lambda>e. \<forall>req. e = Connect req \<longrightarrow> req_database req = JNull)
          (create_user_if_not_exists env child)"
    by (rule emits_create_user) (simp_all add: g)
  then show "\<exists>es. trace (snd (create_user_if_not_exists env child w)) = trace w @ es
              \<and> list_all (\<lambda>e. \<forall>req. e = Connect req \<longrightarrow> req_database req = JNull) es"
    by (rule emitsD)
qed

theorem create_user_null_dbname_witness:
  "map_of (prepare_master same_host_child master_secret) ''dbname'' = Some JNull
   \<and> create_user_if_not_exists master_vault_env same_host_child w0 =
       (Inl (ValueError (MasterLoginFailed (JStr ''arn:master''))),
        \<lparr>trace = [Connect \<lparr>req_host = JStr ''primary.example'', req_user = JStr ''admin'',
                    req_password = JStr ''adminpw'', req_database = JNull,
                    req_port = 5432, req_verify_full = False\<rparr>],
         open_conns = []\<rparr>)"
proof
  have "map_of same_host_child ''dbname'' = None"
    by (simp add: same_host_child_def secret_of_def)
  from create_user_null_dbname [OF this, of master_secret]
  show "map_of (prepare_master same_host_child master_secret) ''dbname'' = Some JNull"
    by simp
  show "create_user_if_not_exists master_vault_env same_host_child w0 =
       (Inl (ValueError (MasterLoginFailed (JStr ''arn:master''))),
        \<lparr>trace = [Connect \<lparr>req_host = JStr ''primary.example'', req_user = JStr ''admin'',
                    req_password = JStr ''adminpw'', req_database = JNull,
                    req_port = 5432, req_verify_full = False\<rparr>],
         open_conns = []\<rparr>)"
    by code_simp
qed

section \<open>Finishing the rotation\<close>

lemma scan_versions_holders:
  "scan_versions versions token =
     (case current_holders versions of
        [] \<Rightarrow> CurrentVersion None
      | v # _ \<Rightarrow> if v = token then AlreadyCurrent else CurrentVersion (Some v))"
  by (induction versions token rule: scan_versions.induct) (simp_all add: current_holders_def)

text \<open>
  C8. The vault describes the secret with a version map in which at most one
  version holds \<^verbatim>\<open>AWSCURRENT\<close>. If the token holds it, \<^verbatim>\<open>finish_secret\<close> returns
  and leaves the world as it was: \<^verbatim>\<open>update_secret_version_stage\<close> is not called.
  Otherwise it makes exactly one call of \<^verbatim>\<open>update_secret_version_stage\<close>, which
  moves \<^verbatim>\<open>AWSCURRENT\<close> to the token and removes it from the version that holds it
  (from none when no version does), and returns what that call returns.
\<close>

theorem finish_secret_moves_current:
  assumes md: "describe_secret env (trace w) (JStr arn) = Inr md"
    and vs: "VersionIdsToStages md = Some versions"
    and uniq: "length (current_holders versions) \<le> 1"
  shows "(token \<in> set (current_holders versions)
            \<longrightarrow> finish_secret env arn token w = (Inr (), w))
       \<and> (token \<notin> set (current_holders versions)
            \<longrightarrow> finish_secret env arn token w =
                  (case update_secret_version_stage env (trace w) (JStr arn) ''AWSCURRENT'' token
                          (case current_holders versions of [] \<Rightarrow> None | v # _ \<Rightarrow> Some v) of
                     None \<Rightarrow> Inr ()
                   | Some e \<Rightarrow> Inl e,
                   emit (UpdateSecretVersionStage (JStr arn) ''AWSCURRENT'' token
                          (case current_holders versions of [] \<Rightarrow> None | v # _ \<Rightarrow> Some v)) w))"
proof (intro conjI impI)
  assume "token \<in> set (current_holders versions)"
  with uniq have "current_holders versions = [token]"
    by (cases "current_holders versions") auto
  then have "scan_versions versions token = AlreadyCurrent"
    by (simp add: scan_versions_holders)
  with md vs show "finish_secret env arn token w = (Inr (), w)"
    by (simp add: finish_secret_def)
next
  assume "token \<notin> set (current_holders versions)"
  then have "scan_versions versions token =
      CurrentVersion (case current_holders versions of [] \<Rightarrow> None | v # _ \<Rightarrow> Some v)"
    by (cases "current_holders versions") (auto simp: scan_versions_holders)
  with md vs show "finish_secret env arn token w =
                  (case update_secret_version_stage env (trace w) (JStr arn) ''AWSCURRENT'' token
                          (case current_holders versions of [] \<Rightarrow> None | v # _ \<Rightarrow> Some v) of
                     None \<Rightarrow> Inr ()
                   | Some e \<Rightarrow> Inl e,
                   emit (UpdateSecretVersionStage (JStr arn) ''AWSCURRENT'' token
                          (case current_holders versions of [] \<Rightarrow> None | v # _ \<Rightarrow> Some v)) w)"
    by (simp add: finish_secret_def split: option.splits)
qed

theorem finish_secret_moves_current_witness:
  "finish_secret
      (staged_env [(''v1'', [''AWSPREVIOUS'']), (''v2'', [''AWSCURRENT'', ''AWSPENDING''])])
      ''arn:app'' ''v2'' w0 = (Inr (), w0)
   \<and> finish_secret (staged_env [(''v1'', [''AWSCURRENT'']), (''v2'', [''AWSPENDING''])])
      ''arn:app'' ''v2'' w0 =
       (Inr (),
        \<lparr>trace = [UpdateSecretVersionStage (JStr ''arn:app'') ''AWSCURRENT'' ''v2'' (Some ''v1'')],
         open_conns = []\<rparr>)"
proof
  let ?vs = "[(''v1'', [''AWSPREVIOUS'']), (''v2'', [''AWSCURRENT'', ''AWSPENDING''])]"
  have "describe_secret (staged_env ?vs) (trace w0) (JStr ''arn:app'')
          = Inr \<lparr>RotationEnabled = Some True, VersionIdsToStages = Some ?vs\<rparr>"
    by (simp add: staged_env_def)
  from finish_secret_moves_current [OF this, of ?vs "''v2''"]
  show "finish_secret (staged_env ?vs) ''arn:app'' ''v2'' w0 = (Inr (), w0)"
    by (simp add: current_holders_def)
next
  let ?vs = "[(''v1'', [''AWSCURRENT'']), (''v2'', [''AWSPENDING''])]"
  have "describe_secret (staged_env ?vs) (trace w0) (JStr ''arn:app'')
          = Inr \<lparr>RotationEnabled = Some True, VersionIdsToStages = Some ?vs\<rparr>"
    by (simp add: staged_env_def)
  from finish_secret_moves_current [OF this, of ?vs "''v2''"]
  show "finish_secret (staged_env ?vs) ''arn:app'' ''v2'' w0 =
       (Inr (),
        \<lparr>trace = [UpdateSecretVersionStage (JStr ''arn:app'') ''AWSCURRENT'' ''v2'' (Some ''v1'')],
         open_conns = []\<rparr>)"
    by (simp add: current_holders_def staged_env_def silent_env_def emit_def w0_def)
qed

section \<open>Creating the pending secret\<close>

lemma get_secret_dict_version:
  "get_secret_dict env arn stage (Some token) ms w =
     (case get_secret_value env (trace w) arn (version_id token) stage of
        Inl e \<Rightarrow> Inl e
      | Inr NotJson \<Rightarrow> Inl (ValueError InvalidJSON)
      | Inr (JsonText secret_dict) \<Rightarrow>
          if \<not> ms then
            (case find (\<lambda>field. map_of secret_dict field = None) required_fields of
               Some field \<Rightarrow> Inl (KeyError (FieldMissing field))
             | None \<Rightarrow>
                 (case subscript secret_dict ''engine'' of
                    Inl e \<Rightarrow> Inl e
                  | Inr engine \<Rightarrow>
                      if \<not> list_ex (\<lambda>s. py_eq engine (JStr s)) supported_engines
                      then Inl (KeyError UnsupportedEngine)
                      else Inr secret_dict))
          else Inr secret_dict)"
  by (simp add: get_secret_dict_def version_id_def)

lemma pending_found_not_missing:
  assumes "get_secret_value env (trace w) arn (version_id token) ''AWSPENDING'' = Inr s"
  shows "get_secret_dict env arn ''AWSPENDING'' (Some token) False w
           \<noteq> Inl ResourceNotFoundException"
  using assms
  by (auto simp: get_secret_dict_version subscript_def
           split: secret_string.splits option.splits if_splits)

lemma create_secret_not_missing:
  assumes "get_secret_dict env (JStr arn) ''AWSPENDING'' (Some token) False w
             \<noteq> Inl ResourceNotFoundException"
  shows "snd (create_secret env arn token w) = w"
  using assms
  by (cases "get_secret_dict env (JStr arn) ''AWSCURRENT'' None False w";
      cases "get_secret_dict env (JStr arn) ''AWSPENDING'' (Some token) False w")
     (simp_all add: create_secret_def bind_def fetch_def)

lemma create_secret_success_trace:
  assumes "create_secret env arn token w = (Inr (), w1)"
  shows "(w1 = w \<and> get_secret_dict env (JStr arn) ''AWSPENDING'' (Some token) False w
              \<noteq> Inl ResourceNotFoundException)
         \<or> (\<exists>x d. open_conns w1 = open_conns w \<and> trace w1 = trace w @
            [GetRandomPassword x, PutSecretValue (JStr arn) token d [''AWSPENDING'']])"
  using assms
  by (auto simp: create_secret_def bind_def fetch_def Let_def emit_def
           split: sum.splits option.splits if_splits)

text \<open>
  C7. When the vault has a secret string for the token under \<^verbatim>\<open>AWSPENDING\<close>,
  \<^verbatim>\<open>create_secret\<close> leaves the world as it was: no password is generated and
  nothing is put. So, with a vault that gives back a pending secret once it
  was put, a second \<^verbatim>\<open>create_secret\<close> after a first that returned changes nothing,
  and the first has put at most one version.
\<close>

theorem create_secret_idempotent:
  "(\<forall>s. get_secret_value env (trace w) (JStr arn) (version_id token) ''AWSPENDING'' = Inr s
        \<longrightarrow> snd (create_secret env arn token w) = w)
   \<and> ((\<forall>tr d. \<exists>s. get_secret_value env
                    (tr @ [PutSecretValue (JStr arn) token d [''AWSPENDING'']])
                    (JStr arn) (version_id token) ''AWSPENDING'' = Inr s)
        \<and> create_secret env arn token w = (Inr (), w1)
      \<longrightarrow> snd (create_secret env arn token w1) = w1
          \<and> (\<exists>es. trace w1 = trace w @ es \<and> length (filter is_PutSecretValue es) \<le> 1))"
proof (intro conjI allI impI)
  fix s
  assume "get_secret_value env (trace w) (JStr arn) (version_id token) ''AWSPENDING'' = Inr s"
  then show "snd (create_secret env arn token w) = w"
    by (intro create_secret_not_missing pending_found_not_missing)
next
  assume a: "(\<forall>tr d. \<exists>s. get_secret_value env
                    (tr @ [PutSecretValue (JStr arn) token d [''AWSPENDING'']])
                    (JStr arn) (version_id token) ''AWSPENDING'' = Inr s)
        \<and> create_secret env arn token w = (Inr (), w1)"
  then have run: "create_secret env arn token w = (Inr (), w1)" by simp
  from create_secret_success_trace [OF run]
  show "snd (create_secret env arn token w1) = w1"
  proof
    assume "w1 = w \<and> get_secret_dict env (JStr arn) ''AWSPENDING'' (Some token) False w
              \<noteq> Inl ResourceNotFoundException"
    then show ?thesis by (simp add: create_secret_not_missing)
  next
    assume "\<exists>x d. open_conns w1 = open_conns w \<and> trace w1 = trace w @
            [GetRandomPassword x, PutSecretValue (JStr arn) token d [''AWSPENDING'']]"
    then obtain x d where "trace w1 = (trace w @ [GetRandomPassword x]) @
            [PutSecretValue (JStr arn) token d [''AWSPENDING'']]" by auto
    with a obtain s where
      "get_secret_value env (trace w1) (JStr arn) (version_id token) ''AWSPENDING'' = Inr s"
      by metis
    then show ?thesis
      by (intro create_secret_not_missing pending_found_not_missing)
  qed
  from create_secret_success_trace [OF run]
  show "\<exists>es. trace w1 = trace w @ es \<and> length (filter is_PutSecretValue es) \<le> 1"
    by auto
qed

theorem create_secret_idempotent_witness:
  "create_secret remembering_env ''arn:app'' ''tok1'' w0 = (Inr (), after_first_put)
   \<and> snd (create_secret remembering_env ''arn:app'' ''tok1'' after_first_put) = after_first_put"
proof
  show run: "create_secret remembering_env ''arn:app'' ''tok1'' w0 = (Inr (), after_first_put)"
    by code_simp
  have "\<forall>tr d. \<exists>s. get_secret_value remembering_env
                    (tr @ [PutSecretValue (JStr ''arn:app'') ''tok1'' d [''AWSPENDING'']])
                    (JStr ''arn:app'') (version_id ''tok1'') ''AWSPENDING'' = Inr s"
    by (simp add: remembering_env_def silent_env_def)
  with run create_secret_idempotent [of remembering_env w0 "''arn:app''" "''tok1''" after_first_put]
  show "snd (create_secret remembering_env ''arn:app'' ''tok1'' after_first_put) = after_first_put"
    by blast
qed

section \<open>When a role is created\<close>

lemma empty_role_query_append:
  "empty_role_query env tr (es1 @ es2) =
     (empty_role_query env tr es1 \<or> empty_role_query env (tr @ es1) es2)"
  by (induction env tr es1 rule: empty_role_query.induct) auto

lemma promptedI:
  "(\<And>w. \<exists>es. trace (snd (m w)) = trace w @ es
            \<and> (list_ex creates_role es \<longrightarrow> empty_role_query env (trace w) es))
   \<Longrightarrow> prompted env m"
  by (simp add: prompted_def)

lemma promptedD:
  "prompted env m \<Longrightarrow> \<exists>es. trace (snd (m w)) = trace w @ es
            \<and> (list_ex creates_role es \<longrightarrow> empty_role_query env (trace w) es)"
  by (simp add: prompted_def)

lemma prompted_leaf:
  assumes "emits (\<lambda>e. \<not> creates_role e) m"
  shows "prompted env m"
proof (rule promptedI)
  fix w
  from emitsD [OF assms, of w] obtain es where
    "trace (snd (m w)) = trace w @ es" "list_all (\<lambda>e. \<not> creates_role e) es" by auto
  then show "\<exists>es. trace (snd (m w)) = trace w @ es
            \<and> (list_ex creates_role es \<longrightarrow> empty_role_query env (trace w) es)"
    by (auto simp: list_all_iff list_ex_iff)
qed

lemma prompted_bind:
  assumes m: "prompted env m" and f: "\<And>x. prompted env (f x)"
  shows "prompted env (bind m f)"
proof (rule promptedI)
  fix w
  obtain r w1 where mw: "m w = (r, w1)" by (cases "m w")
  from promptedD [OF m, of w] mw obtain es where es: "trace w1 = trace w @ es"
    "list_ex creates_role es \<longrightarrow> empty_role_query env (trace w) es"
    by auto
  show "\<exists>es. trace (snd (bind m f w)) = trace w @ es
            \<and> (list_ex creates_role es \<longrightarrow> empty_role_query env (trace w) es)"
  proof (cases r)
    case (Inl e)
    with mw es show ?thesis by (auto simp: bind_def)
  next
    case (Inr x)
    from promptedD [OF f, of x w1] obtain es' where es': "trace (snd (f x w1)) = trace w1 @ es'"
      "list_ex creates_role es' \<longrightarrow> empty_role_query env (trace w1) es'"
      by auto
    have "list_ex creates_role (es @ es') \<longrightarrow> empty_role_query env (trace w) (es @ es')"
      using es es' by (auto simp: empty_role_query_append)
    with Inr mw es es' show ?thesis
      by (intro exI [of _ "es @ es'"]) (simp add: bind_def)
  qed
qed

lemma prompted_try_finally:
  assumes m: "prompted env m"
  shows "prompted env (try_finally m (close c))"
proof (rule promptedI)
  fix w
  obtain r w1 where mw: "m w = (r, w1)" by (cases "m w")
  from promptedD [OF m, of w] mw obtain es where es: "trace w1 = trace w @ es"
    "list_ex creates_role es \<longrightarrow> empty_role_query env (trace w) es"
    by auto
  then have "list_ex creates_role (es @ [Close c])
      \<longrightarrow> empty_role_query env (trace w) (es @ [Close c])"
    by (auto simp: empty_role_query_append)
  with mw es(1) show "\<exists>es. trace (snd (try_finally m (close c) w)) = trace w @ es
            \<and> (list_ex creates_role es \<longrightarrow> empty_role_query env (trace w) es)"
    by (intro exI [of _ "es @ [Close c]"]) (simp add: try_finally_def trace_close)
qed

lemma prompted_if:
  "(b \<Longrightarrow> prompted env m) \<Longrightarrow> (\<not> b \<Longrightarrow> prompted env n) \<Longrightarrow>
   prompted env (if b then m else n)"
  by simp

lemma prompted_option:
  "prompted env a \<Longrightarrow> (\<And>c. prompted env (b c)) \<Longrightarrow>
   prompted env (case x of None \<Rightarrow> a | Some c \<Rightarrow> b c)"
  by (cases x) simp_all

text \<open>After the catalog query: a role is created only when it returned no row.\<close>

lemma prompted_select:
  assumes some: "\<And>roles. roles \<noteq> [] \<Longrightarrow> prompted env (f roles)"
    and none: "emits (\<lambda>e. True) (f [])"
  shows "prompted env (bind (execute env c (SelectRole u)) f)"
proof (rule promptedI)
  fix w
  let ?q = "Execute c (SelectRole u)"
  show "\<exists>es. trace (snd (bind (execute env c (SelectRole u)) f w)) = trace w @ es
            \<and> (list_ex creates_role es \<longrightarrow> empty_role_query env (trace w) es)"
  proof (cases "cursor_execute env (trace w) c (SelectRole u)")
    case (ExecRaises e)
    then show ?thesis
      by (intro exI [of _ "[?q]"]) (simp add: bind_def execute_def emit_def)
  next
    case (Rows roles)
    then have b: "bind (execute env c (SelectRole u)) f w = f roles (emit ?q w)"
      by (simp add: bind_def execute_def)
    show ?thesis
    proof (cases "roles = []")
      case True
      from emitsD [OF none, of "emit ?q w"] obtain es where
        "trace (snd (f [] (emit ?q w))) = trace (emit ?q w) @ es" by auto
      with True Rows b show ?thesis
        by (intro exI [of _ "?q # es"]) (simp add: emit_def)
    next
      case False
      from promptedD [OF some [OF False], of "emit ?q w"] obtain es where
        es: "trace (snd (f roles (emit ?q w))) = trace (emit ?q w) @ es"
          "list_ex creates_role es \<longrightarrow> empty_role_query env (trace (emit ?q w)) es"
        by auto
      with b show ?thesis
        by (intro exI [of _ "?q # es"]) (simp add: emit_def)
    qed
  qed
qed

lemma prompted_create_user: "prompted env (create_user_if_not_exists env d)"
  unfolding create_user_if_not_exists_def Let_def
  by (intro prompted_select prompted_if prompted_bind prompted_option prompted_try_finally)
     (auto intro!: prompted_leaf emits_is_rds emits_get_connection)


section \<open>Setting the pending secret\<close>

lemma fetched_has_required:
  assumes "get_secret_dict env arn stage token False w = Inr d"
  shows "subscript d ''host'' = Inr (dict_get d ''host'')"
    and "subscript d ''username'' = Inr (dict_get d ''username'')"
    and "subscript d ''password'' = Inr (dict_get d ''password'')"
proof -
  from assms have "find (\<lambda>field. map_of d field = None) required_fields = None"
    by (auto simp: get_secret_dict_def
             split: sum.splits secret_string.splits option.splits if_splits)
  then have "\<forall>k \<in> set required_fields. map_of d k \<noteq> None"
    by (simp add: find_None_iff)
  then have "map_of d ''host'' \<noteq> None" "map_of d ''username'' \<noteq> None"
    "map_of d ''password'' \<noteq> None"
    by (simp_all add: required_fields_def)
  then show "subscript d ''host'' = Inr (dict_get d ''host'')"
    and "subscript d ''username'' = Inr (dict_get d ''username'')"
    and "subscript d ''password'' = Inr (dict_get d ''password'')"
    by (auto simp: subscript_def dict_get_def)
qed

lemma previous_result:
  assumes "previous_absent_or_valid env arn w"
  shows "(case get_secret_dict env (JStr arn) ''AWSPREVIOUS'' None False w of
            Inr d \<Rightarrow> Inr (Some d)
          | Inl e \<Rightarrow> if e = ResourceNotFoundException \<or> is_KeyError e
                     then Inr None else Inl e) =
         Inr (case get_secret_dict env (JStr arn) ''AWSPREVIOUS'' None False w of
                Inr d \<Rightarrow> Some d | Inl e \<Rightarrow> None)"
  using assms by (auto simp: previous_absent_or_valid_def split: sum.splits)

lemma set_secret_previous_raises:
  assumes "\<not> previous_absent_or_valid env arn w"
  shows "snd (set_secret env arn token w) = w"
  using assms
  by (auto simp: set_secret_def bind_def previous_absent_or_valid_def split: sum.splits)

lemma set_secret_provision_raises:
  assumes "previous_absent_or_valid env arn w"
    and "get_secret_dict env (JStr arn) ''AWSCURRENT'' None False w = Inr current"
    and "get_secret_dict env (JStr arn) ''AWSPENDING'' (Some token) False w = Inr pending"
    and "create_user_if_not_exists env current w = (Inl e, w1)"
  shows "set_secret env arn token w = (Inl e, w1)"
  using assms(2-4)
  by (simp add: set_secret_def bind_def fetch_def previous_result [OF assms(1)])

lemma set_secret_pending_raises:
  assumes "previous_absent_or_valid env arn w"
    and "get_secret_dict env (JStr arn) ''AWSCURRENT'' None False w = Inr current"
    and "get_secret_dict env (JStr arn) ''AWSPENDING'' (Some token) False w = Inr pending"
    and "create_user_if_not_exists env current w = (Inr created, w1)"
    and "get_connection env pending w1 = (Inl e, w2)"
  shows "set_secret env arn token w = (Inl e, w2)"
  using assms(2-5)
  by (simp add: set_secret_def bind_def fetch_def previous_result [OF assms(1)])

text \<open>
  The start of \<^verbatim>\<open>set_secret\<close>, once the three records are fetched, the
  provisioner has returned and the login with the pending record has returned.
\<close>

lemma set_secret_start:
  assumes prev: "previous_absent_or_valid env arn w"
    and cur: "get_secret_dict env (JStr arn) ''AWSCURRENT'' None False w = Inr current"
    and pen: "get_secret_dict env (JStr arn) ''AWSPENDING'' (Some token) False w = Inr pending"
    and prov: "create_user_if_not_exists env current w = (Inr created, w1)"
    and conn: "get_connection env pending w1 = (Inr conn, w2)"
  shows "conn = Some c \<Longrightarrow> set_secret env arn token w = (Inr (), close c w2)"
    and "conn = None \<Longrightarrow>
         \<not> py_eq (dict_get current ''username'') (dict_get pending ''username'') \<Longrightarrow>
         set_secret env arn token w =
           (Inl (ValueError (ModifyOtherUser (dict_get pending ''username'')
                               (dict_get current ''username''))), w2)"
    and "conn = None \<Longrightarrow>
         py_eq (dict_get current ''username'') (dict_get pending ''username'') \<Longrightarrow>
         \<not> py_eq (dict_get current ''host'') (dict_get pending ''host'') \<Longrightarrow>
         set_secret env arn token w =
           (Inl (ValueError (ModifyOtherHost (dict_get pending ''host'')
                               (dict_get current ''host''))), w2)"
proof -
  note req = fetched_has_required [OF cur] fetched_has_required [OF pen]
  note p = previous_result [OF prev]
  show "conn = Some c \<Longrightarrow> set_secret env arn token w = (Inr (), close c w2)"
    using cur pen prov conn
    by (simp add: set_secret_def bind_def fetch_def p)
  show "conn = None \<Longrightarrow>
         \<not> py_eq (dict_get current ''username'') (dict_get pending ''username'') \<Longrightarrow>
         set_secret env arn token w =
           (Inl (ValueError (ModifyOtherUser (dict_get pending ''username'')
                               (dict_get current ''username''))), w2)"
    using cur pen prov conn
    by (simp add: set_secret_def bind_def fetch_def p req lift_def raise_def)
  show "conn = None \<Longrightarrow>
         py_eq (dict_get current ''username'') (dict_get pending ''username'') \<Longrightarrow>
         \<not> py_eq (dict_get current ''host'') (dict_get pending ''host'') \<Longrightarrow>
         set_secret env arn token w =
           (Inl (ValueError (ModifyOtherHost (dict_get pending ''host'')
                               (dict_get current ''host''))), w2)"
    using cur pen prov conn
    by (simp add: set_secret_def bind_def fetch_def p req lift_def raise_def)
qed

text \<open>
  C4, as the claim states it, fails: current and pending secret name different
  users, the pending credentials log in, and \<^verbatim>\<open>set_secret\<close> returns without an
  exception, since the comparison of the two records comes after the login with
  the pending record.
\<close>

theorem set_secret_accepts_mismatched_pair:
  "get_secret_dict mismatch_env (JStr ''arn:app'') ''AWSCURRENT'' None False w0
     = Inr (secret_of ''app'' ''pw1'')
   \<and> get_secret_dict mismatch_env (JStr ''arn:app'') ''AWSPENDING'' (Some ''tok1'') False w0
     = Inr (secret_of ''svc'' ''pw2'')
   \<and> \<not> py_eq (dict_get (secret_of ''app'' ''pw1'') ''username'')
              (dict_get (secret_of ''svc'' ''pw2'') ''username'')
   \<and> set_secret mismatch_env ''arn:app'' ''tok1'' w0 =
       (Inr (),
        \<lparr>trace =
           [Connect \<lparr>req_host = JStr ''primary.example'', req_user = JStr ''svc'',
              req_password = JStr ''pw2'', req_database = JStr ''postgres'',
              req_port = 5432, req_verify_full = False\<rparr>,
            Close 0],
         open_conns = []\<rparr>)"
  by code_simp

text \<open>
  C4, amended. Current and pending secret differ in \<^verbatim>\<open>username\<close> or in \<^verbatim>\<open>host\<close>.
  Then nothing \<^verbatim>\<open>set_secret\<close> adds to the trace is an \<^verbatim>\<open>ALTER USER\<close> statement;
  and when the provisioner has returned and the login with the pending record
  has given \<^verbatim>\<open>None\<close>, \<^verbatim>\<open>set_secret\<close> raises the \<^verbatim>\<open>ValueError\<close> about the other user
  or the other host, having made no further call.
\<close>

theorem set_secret_mismatch:
  assumes cur: "get_secret_dict env (JStr arn) ''AWSCURRENT'' None False w = Inr current"
    and pen: "get_secret_dict env (JStr arn) ''AWSPENDING'' (Some token) False w = Inr pending"
    and mis: "\<not> py_eq (dict_get current ''username'') (dict_get pending ''username'')
              \<or> \<not> py_eq (dict_get current ''host'') (dict_get pending ''host'')"
  shows "(\<exists>es. trace (snd (set_secret env arn token w)) = trace w @ es
              \<and> list_all (\<lambda>e. \<not> alters_password e) es)
       \<and> (previous_absent_or_valid env arn w
            \<and> create_user_if_not_exists env current w = (Inr created, w1)
            \<and> get_connection env pending w1 = (Inr None, w2)
          \<longrightarrow> set_secret env arn token w = (Inl (mismatch_error current pending), w2))"
proof (intro conjI impI)
  have refused: "set_secret env arn token w = (Inl (mismatch_error current pending), w2')"
    if "previous_absent_or_valid env arn w"
      "create_user_if_not_exists env current w = (Inr created', w1')"
      "get_connection env pending w1' = (Inr None, w2')" for created' w1' w2'
    using set_secret_start(2,3) [OF that(1) cur pen that(2,3)] mis
    by (auto simp: mismatch_error_def)
  show "set_secret env arn token w = (Inl (mismatch_error current pending), w2)"
    if "previous_absent_or_valid env arn w
            \<and> create_user_if_not_exists env current w = (Inr created, w1)
            \<and> get_connection env pending w1 = (Inr None, w2)"
    using that refused by blast
  show "\<exists>es. trace (snd (set_secret env arn token w)) = trace w @ es
              \<and> list_all (\<lambda>e. \<not> alters_password e) es"
  proof (cases "previous_absent_or_valid env arn w")
    case False
    then show ?thesis by (simp add: set_secret_previous_raises)
  next
    case True
    obtain r1 w1' where p: "create_user_if_not_exists env current w = (r1, w1')"
      by (cases "create_user_if_not_exists env current w")
    from emitsD [OF emits_create_user_no_alter, of env current w] p
    obtain es1 where es1: "trace w1' = trace w @ es1" "list_all (\<lambda>e. \<not> alters_password e) es1"
      by auto
    show ?thesis
    proof (cases r1)
      case (Inl e)
      with set_secret_provision_raises [OF True cur pen] p es1 show ?thesis by auto
    next
      case (Inr created')
      obtain r2 w2' where c: "get_connection env pending w1' = (r2, w2')"
        by (cases "get_connection env pending w1'")
      from emitsD [OF emits_get_connection_connects, of env pending w1'] c
      obtain es2 where es2: "trace w2' = trace w1' @ es2" "list_all is_Connect es2"
        by auto
      have na: "list_all (\<lambda>e. \<not> alters_password e) es2"
        using es2(2) by (induction es2) (auto elim: is_Connect.elims)
      show ?thesis
      proof (cases r2)
        case (Inl e)
        with set_secret_pending_raises [OF True cur pen] p Inr c es1 es2 na show ?thesis by auto
      next
        case r2: (Inr conn)
        show ?thesis
        proof (cases conn)
          case None
          with refused [OF True] p Inr c r2 es1 es2 na show ?thesis by auto
        next
          case (Some s)
          with set_secret_start(1) [OF True cur pen] p Inr c r2 es1 es2 na show ?thesis
            by (auto simp: trace_close)
        qed
      qed
    qed
  qed
qed

theorem set_secret_mismatch_witness:
  "set_secret locked_out_env ''arn:app'' ''tok1'' w0 =
     (Inl (ValueError (ModifyOtherUser (JStr ''svc'') (JStr ''app''))),
      \<lparr>trace =
         [Connect \<lparr>req_host = JStr ''primary.example'', req_user = JStr ''svc'',
            req_password = JStr ''pw2'', req_database = JStr ''postgres'',
            req_port = 5432, req_verify_full = False\<rparr>],
       open_conns = []\<rparr>)"
proof -
  let ?w2 = "\<lparr>trace =
         [Connect \<lparr>req_host = JStr ''primary.example'', req_user = JStr ''svc'',
            req_password = JStr ''pw2'', req_database = JStr ''postgres'',
            req_port = 5432, req_verify_full = False\<rparr>],
       open_conns = []\<rparr>"
  have cur: "get_secret_dict locked_out_env (JStr ''arn:app'') ''AWSCURRENT'' None False w0
      = Inr (secret_of ''app'' ''pw1'')"
    by code_simp
  have pen: "get_secret_dict locked_out_env (JStr ''arn:app'') ''AWSPENDING'' (Some ''tok1'')
      False w0 = Inr (secret_of ''svc'' ''pw2'')"
    by code_simp
  have mis: "\<not> py_eq (dict_get (secret_of ''app'' ''pw1'') ''username'')
                 (dict_get (secret_of ''svc'' ''pw2'') ''username'')
             \<or> \<not> py_eq (dict_get (secret_of ''app'' ''pw1'') ''host'')
                 (dict_get (secret_of ''svc'' ''pw2'') ''host'')"
    by code_simp
  have prev: "previous_absent_or_valid locked_out_env ''arn:app'' w0"
    by code_simp
  have prov: "create_user_if_not_exists locked_out_env (secret_of ''app'' ''pw1'') w0
      = (Inr False, w0)"
    by code_simp
  have conn: "get_connection locked_out_env (secret_of ''svc'' ''pw2'') w0 = (Inr None, ?w2)"
    by code_simp
  have err: "mismatch_error (secret_of ''app'' ''pw1'') (secret_of ''svc'' ''pw2'')
      = ValueError (ModifyOtherUser (JStr ''svc'') (JStr ''app''))"
    by code_simp
  from set_secret_mismatch [OF cur pen mis, of False w0 ?w2] prev prov conn err
  show ?thesis by simp
qed

text \<open>
  C2, as the claim states it, fails: the pending credentials log in, and
  \<^verbatim>\<open>set_secret\<close> still creates a role. The provisioner runs before the login
  with the pending record; here the current secret is managed by a master
  secret and its role is not in the catalog.
\<close>

theorem set_secret_creates_role_although_pending_authenticates:
  "get_secret_dict provisioning_env (JStr ''arn:app'') ''AWSPENDING'' (Some ''tok1'') False w0
     = Inr (secret_of ''svc'' ''pw2'')
   \<and> fst (get_connection provisioning_env (secret_of ''svc'' ''pw2'') w0) = Inr (Some 0)
   \<and> set_secret provisioning_env ''arn:app'' ''tok1'' w0 =
       (Inr (),
        \<lparr>trace =
           [Connect \<lparr>req_host = JStr ''primary.example'', req_user = JStr ''admin'',
              req_password = JStr ''adminpw'', req_database = JStr ''appdb'',
              req_port = 5432, req_verify_full = False\<rparr>,
            Execute 0 (QuoteIdent (JStr ''app'')),
            Execute 0 (SelectRole (JStr ''app'')),
            Execute 0 (CreateRole (JStr ''app'') (JStr ''pw1'')),
            Commit 0,
            Close 0,
            Connect \<lparr>req_host = JStr ''primary.example'', req_user = JStr ''svc'',
              req_password = JStr ''pw2'', req_database = JStr ''postgres'',
              req_port = 5432, req_verify_full = False\<rparr>,
            Close 6],
         open_conns = []\<rparr>)"
  by code_simp

text \<open>
  C2, amended. The provisioner has returned and the pending credentials log in.
  Then \<^verbatim>\<open>set_secret\<close> returns. Nothing it has added to the trace is an
  \<^verbatim>\<open>ALTER USER\<close> statement, and it has created a role only if a query of the role
  catalog returned no row: with the role in the catalog nothing in the database
  changed. After the provisioner it has only made connection attempts and closed
  the session it got, and for a current secret without \<^verbatim>\<open>masterarn\<close> the
  provisioner has made no call at all.
\<close>

theorem set_secret_pending_authenticates:
  assumes prev: "previous_absent_or_valid env arn w"
    and cur: "get_secret_dict env (JStr arn) ''AWSCURRENT'' None False w = Inr current"
    and pen: "get_secret_dict env (JStr arn) ''AWSPENDING'' (Some token) False w = Inr pending"
    and prov: "create_user_if_not_exists env current w = (Inr created, w1)"
    and auth: "get_connection env pending w1 = (Inr (Some c), w2)"
  shows "set_secret env arn token w = (Inr (), close c w2)
       \<and> (\<exists>es. trace (close c w2) = trace w @ es
              \<and> list_all (\<lambda>e. \<not> alters_password e) es
              \<and> (list_ex creates_role es \<longrightarrow> empty_role_query env (trace w) es))
       \<and> (\<exists>es. trace (close c w2) = trace w1 @ es @ [Close c] \<and> list_all is_Connect es)
       \<and> (\<exists>es. trace w1 = trace w @ es \<and> list_all (\<lambda>e. \<not> alters_password e) es)
       \<and> (\<not> py_truthy (dict_get current ''masterarn'') \<longrightarrow> w1 = w)"
proof (intro conjI impI)
  show "set_secret env arn token w = (Inr (), close c w2)"
    using set_secret_start(1) [OF prev cur pen prov auth] by simp
  from emitsD [OF emits_get_connection_connects, of env pending w1] auth
  obtain es2 where es2: "trace w2 = trace w1 @ es2" "list_all is_Connect es2"
    by auto
  then show "\<exists>es. trace (close c w2) = trace w1 @ es @ [Close c] \<and> list_all is_Connect es"
    by (auto simp: trace_close)
  from emitsD [OF emits_create_user_no_alter, of env current w] prov
  obtain es1 where es1: "trace w1 = trace w @ es1" "list_all (\<lambda>e. \<not> alters_password e) es1"
    by auto
  then show "\<exists>es. trace w1 = trace w @ es \<and> list_all (\<lambda>e. \<not> alters_password e) es"
    by auto
  from promptedD [OF prompted_create_user, of env current w] prov es1(1)
  have p1: "list_ex creates_role es1 \<longrightarrow> empty_role_query env (trace w) es1"
    by auto
  have quiet: "\<not> alters_password e \<and> \<not> creates_role e" if "is_Connect e" for e
    using that by (cases e) simp_all
  then have q2: "list_all (\<lambda>e. \<not> alters_password e) es2" "\<not> list_ex creates_role es2"
    using es2(2) by (auto simp: list_all_iff list_ex_iff)
  have "list_ex creates_role (es1 @ es2 @ [Close c])
      \<longrightarrow> empty_role_query env (trace w) (es1 @ es2 @ [Close c])"
    using p1 q2(2) by (auto simp: empty_role_query_append)
  with es1 es2(1) q2(1)
  show "\<exists>es. trace (close c w2) = trace w @ es
              \<and> list_all (\<lambda>e. \<not> alters_password e) es
              \<and> (list_ex creates_role es \<longrightarrow> empty_role_query env (trace w) es)"
    by (intro exI [of _ "es1 @ es2 @ [Close c]"]) (simp add: trace_close)
  show "w1 = w" if "\<not> py_truthy (dict_get current ''masterarn'')"
    using create_user_without_master [OF that, of env w] prov by simp
qed

theorem set_secret_pending_authenticates_witness:
  "set_secret managed_settled_env ''arn:app'' ''tok1'' w0 =
     (Inr (),
      \<lparr>trace =
         [Connect \<lparr>req_host = JStr ''primary.example'', req_user = JStr ''admin'',
            req_password = JStr ''adminpw'', req_database = JStr ''appdb'',
            req_port = 5432, req_verify_full = False\<rparr>,
          Execute 0 (QuoteIdent (JStr ''app'')),
          Execute 0 (SelectRole (JStr ''app'')),
          Commit 0,
          Close 0,
          Connect \<lparr>req_host = JStr ''primary.example'', req_user = JStr ''app'',
            req_password = JStr ''pw2'', req_database = JStr ''postgres'',
            req_port = 5432, req_verify_full = False\<rparr>,
          Close 5],
       open_conns = []\<rparr>)"
proof -
  let ?w2 = "\<lparr>trace = trace after_provisioning @
         [Connect \<lparr>req_host = JStr ''primary.example'', req_user = JStr ''app'',
            req_password = JStr ''pw2'', req_database = JStr ''postgres'',
            req_port = 5432, req_verify_full = False\<rparr>],
       open_conns = [5]\<rparr>"
  have prev: "previous_absent_or_valid managed_settled_env ''arn:app'' w0"
    by code_simp
  have cur: "get_secret_dict managed_settled_env (JStr ''arn:app'') ''AWSCURRENT'' None False w0
      = Inr managed_current"
    by code_simp
  have pen: "get_secret_dict managed_settled_env (JStr ''arn:app'') ''AWSPENDING''
      (Some ''tok1'') False w0 = Inr (secret_of ''app'' ''pw2'')"
    by code_simp
  have prov: "create_user_if_not_exists managed_settled_env managed_current w0
      = (Inr False, after_provisioning)"
    by code_simp
  have auth: "get_connection managed_settled_env (secret_of ''app'' ''pw2'') after_provisioning
      = (Inr (Some 5), ?w2)"
    by code_simp
  from set_secret_pending_authenticates [OF prev cur pen prov auth]
  show ?thesis by (simp add: close_def emit_def after_provisioning_def)
qed

text \<open>
  C3. Pending and current credentials are refused, the previous ones log in,
  and the previous secret names another user than the pending one. The claim
  asks that the session is closed when the mismatch is raised; \<^verbatim>\<open>set_secret\<close>
  raises the \<^verbatim>\<open>ValueError\<close> with the session of the previous credentials, number
  2, still open: the trace has no \<open>Close\<close> event.
\<close>

theorem set_secret_leaks_previous_session:
  "set_secret renamed_role_env ''arn:app'' ''tok1'' w0 =
     (Inl (ValueError (ModifyOtherPreviousUser (JStr ''app'') (JStr ''app_old''))),
      \<lparr>trace =
         [Connect \<lparr>req_host = JStr ''primary.example'', req_user = JStr ''app'',
            req_password = JStr ''pw2'', req_database = JStr ''postgres'',
            req_port = 5432, req_verify_full = False\<rparr>,
          Connect \<lparr>req_host = JStr ''primary.example'', req_user = JStr ''app'',
            req_password = JStr ''pw1'', req_database = JStr ''postgres'',
            req_port = 5432, req_verify_full = False\<rparr>,
          Connect \<lparr>req_host = JStr ''primary.example'', req_user = JStr ''app_old'',
            req_password = JStr ''pw0'', req_database = JStr ''postgres'',
            req_port = 5432, req_verify_full = False\<rparr>],
       open_conns = [2]\<rparr>)"
  by code_simp

theorem set_secret_leaks_previous_session_witness:
  "open_conns (snd (set_secret renamed_role_env ''arn:app'' ''tok1'' w0)) = [2]"
  using set_secret_leaks_previous_session by simp

end
